theory Spec2Isabelle
  imports Complex_Main "HOL-Library.Word" "HOL-Library.Sublist"
begin

section \<open>JavaScript strings\<close>

text \<open>
  A JavaScript string is a sequence of UTF-16 code units. \<open>js\<close> writes an ASCII literal
  of the source as such a sequence.
\<close>

type_synonym jschar = "16 word"
type_synonym jsstring = "jschar list"

definition js :: "string \<Rightarrow> jsstring" where
  "js s = map (\<lambda>c. of_nat (of_char c)) s"

text \<open>
  The characters matched by \<^verbatim>\<open>\s\<close> in a regular expression and stripped by
  \<^verbatim>\<open>String.prototype.trim\<close>: ECMAScript's WhiteSpace and LineTerminator.
\<close>

definition isWhiteSpace :: "jschar \<Rightarrow> bool" where
  "isWhiteSpace c \<longleftrightarrow>
     c = 0x09 \<or> c = 0x0A \<or> c = 0x0B \<or> c = 0x0C \<or> c = 0x0D \<or> c = 0x20 \<or> c = 0xA0 \<or>
     c = 0x1680 \<or> (0x2000 \<le> c \<and> c \<le> 0x200A) \<or> c = 0x2028 \<or> c = 0x2029 \<or>
     c = 0x202F \<or> c = 0x205F \<or> c = 0x3000 \<or> c = 0xFEFF"

text \<open>\<^verbatim>\<open>s.replace(/\s+/g, " ")\<close>: every maximal run of white space becomes one space.\<close>

function collapse :: "jsstring \<Rightarrow> jsstring" where
  "collapse [] = []"
| "collapse (c # cs) =
     (if isWhiteSpace c then 0x20 # collapse (dropWhile isWhiteSpace cs) else c # collapse cs)"
  by pat_completeness auto
termination
  by (relation "measure length") (auto simp: less_Suc_eq_le length_dropWhile_le)

text \<open>\<^verbatim>\<open>s.trim()\<close>\<close>

definition trim :: "jsstring \<Rightarrow> jsstring" where
  "trim s = rev (dropWhile isWhiteSpace (rev (dropWhile isWhiteSpace s)))"

text \<open>\<^verbatim>\<open>parts.join(sep)\<close>\<close>

fun join :: "jsstring \<Rightarrow> jsstring list \<Rightarrow> jsstring" where
  "join sep [] = []"
| "join sep [x] = x"
| "join sep (x # y # ys) = x @ sep @ join sep (y # ys)"

text \<open>The decimal numeral that a template literal prints for a non-negative integer.\<close>

fun toString :: "nat \<Rightarrow> jsstring" where
  "toString n =
     (if n < 10 then [of_nat (48 + n)] else toString (n div 10) @ [of_nat (48 + n mod 10)])"

declare toString.simps [simp del]

section \<open>The parsed document\<close>

text \<open>
  The tree that \<^verbatim>\<open>new JSDOM(html)\<close> builds. Elements are HTML elements, whose
  \<^verbatim>\<open>tagName\<close> is the upper-case name; \<open>Comment\<close> stands for every node that is neither
  an element nor text.
\<close>

datatype node =
    Text jsstring
  | Comment jsstring
  | Element (tagName: jsstring) (childNodes: "node list")

datatype document = Document (docNodes: "node list")

datatype exn = TypeError | Thrown jsstring

fun isElement :: "node \<Rightarrow> bool" where
  "isElement (Element t cs) = True"
| "isElement n = False"

text \<open>
  \<^verbatim>\<open>el.textContent\<close> of an element: the data of its text descendants, in tree order.
  Comments inside an element contribute nothing.
\<close>

fun textContent :: "node \<Rightarrow> jsstring" where
  "textContent (Text s) = s"
| "textContent (Comment s) = []"
| "textContent (Element t cs) = concat (map textContent cs)"

text \<open>\<^verbatim>\<open>el.children\<close>: the child nodes that are elements.\<close>

definition children :: "node \<Rightarrow> node list" where
  "children el = filter isElement (childNodes el)"

text \<open>The element descendants of a node, in tree order.\<close>

fun descendants :: "node \<Rightarrow> node list" where
  "descendants (Element t cs) =
     concat (map (\<lambda>c. if isElement c then c # descendants c else []) cs)"
| "descendants n = []"

text \<open>\<^verbatim>\<open>p.querySelector("strong")\<close>: the first descendant that is a strong element.\<close>

definition querySelector_strong :: "node \<Rightarrow> node option" where
  "querySelector_strong p = find (\<lambda>e. tagName e = js ''STRONG'') (descendants p)"

text \<open>
  \<^verbatim>\<open>document.body\<close>: the first body or frameset child of the html root element,
  \<^verbatim>\<open>null\<close> when there is none.
\<close>

definition documentElement :: "document \<Rightarrow> node option" where
  "documentElement d = find isElement (docNodes d)"

definition body :: "document \<Rightarrow> node option" where
  "body d =
     (case documentElement d of
        None \<Rightarrow> None
      | Some html \<Rightarrow>
          if tagName html = js ''HTML''
          then find (\<lambda>c. isElement c \<and> (tagName c = js ''BODY'' \<or> tagName c = js ''FRAMESET''))
                 (childNodes html)
          else None)"

text \<open>
  \<^verbatim>\<open>document.querySelectorAll("h2")\<close>: every h2 element of the tree, in tree order.
  Each is returned with the nodes that follow it under the same parent, which is what
  \<^verbatim>\<open>nextElementSibling\<close> walks.
\<close>

fun querySelectorAll_h2 :: "node list \<Rightarrow> (node \<times> node list) list" where
  "querySelectorAll_h2 [] = []"
| "querySelectorAll_h2 (Text s # rest) = querySelectorAll_h2 rest"
| "querySelectorAll_h2 (Comment s # rest) = querySelectorAll_h2 rest"
| "querySelectorAll_h2 (Element t cs # rest) =
     (if t = js ''H2'' then [(Element t cs, rest)] else [])
       @ querySelectorAll_h2 cs @ querySelectorAll_h2 rest"

section \<open>The title-delimited segmenter\<close>

record slide =
  title :: jsstring
  description :: jsstring

text \<open>
  The three variables of \<^verbatim>\<open>extractSlidesFromHtml\<close>. \<^verbatim>\<open>lastSlide\<close> is a reference to
  an object that is also an element of \<^verbatim>\<open>slides\<close>: the model keeps its index there.
\<close>

record seg_state =
  slides :: "slide list"
  lastSlide :: "nat option"
  buffer :: "jsstring list"

definition isStrongOnlyTitle :: "node \<Rightarrow> bool" where
  "isStrongOnlyTitle p =
     (case querySelector_strong p of
        None \<Rightarrow> False
      | Some strong \<Rightarrow>
          (let allText = trim (collapse (textContent p));
               strongText = trim (collapse (textContent strong))
           in allText = strongText))"

text \<open>The body of the \<^verbatim>\<open>for (const el of children)\<close> loop.\<close>

definition seg_step :: "seg_state \<Rightarrow> node \<Rightarrow> seg_state" where
  "seg_step st el =
     (if tagName el = js ''P'' \<and> isStrongOnlyTitle el then
        (let closed =
               (case lastSlide st of
                  None \<Rightarrow> slides st
                | Some i \<Rightarrow>
                    (slides st)[i := (slides st ! i)
                       \<lparr>description := trim (join (js ''\<newline>\<newline>'') (buffer st))\<rparr>])
         in \<lparr>slides = closed @ [\<lparr>title = trim (textContent el), description = []\<rparr>],
             lastSlide = Some (length closed),
             buffer = []\<rparr>)
      else
        (let text = trim (collapse (textContent el))
         in if text \<noteq> [] then st\<lparr>buffer := buffer st @ [text]\<rparr> else st))"

text \<open>The statement after the loop, which attaches the trailing content.\<close>

definition seg_flush :: "seg_state \<Rightarrow> seg_state" where
  "seg_flush st =
     (case lastSlide st of
        None \<Rightarrow> st
      | Some i \<Rightarrow>
          if buffer st \<noteq> []
          then st\<lparr>slides := (slides st)[i := (slides st ! i)
                     \<lparr>description := trim (join (js ''\<newline>\<newline>'') (buffer st))\<rparr>]\<rparr>
          else st)"

definition seg_init :: seg_state where
  "seg_init = \<lparr>slides = [], lastSlide = None, buffer = []\<rparr>"

text \<open>
  Loop, trailing statement and final filter over the element children of the body. In
  the filter, \<^verbatim>\<open>typeof s.description === "string"\<close> holds of every record the loop builds.
\<close>

definition segment :: "node list \<Rightarrow> slide list" where
  "segment els = filter (\<lambda>s. title s \<noteq> []) (slides (seg_flush (foldl seg_step seg_init els)))"

text \<open>
  \<^verbatim>\<open>extractSlidesFromHtml\<close>, on the parsed document. Reading \<^verbatim>\<open>children\<close> of a missing
  body throws.
\<close>

definition extractSlidesFromHtml :: "document \<Rightarrow> exn + slide list" where
  "extractSlidesFromHtml d =
     (case body d of
        None \<Rightarrow> Inl TypeError
      | Some b \<Rightarrow> Inr (segment (children b)))"

section \<open>The heading-delimited segmenter\<close>

text \<open>
  The \<^verbatim>\<open>while (sibling && sibling.tagName !== "H2")\<close> loop, over the element siblings
  that follow the heading.
\<close>

fun collect :: "node list \<Rightarrow> jsstring \<Rightarrow> jsstring" where
  "collect [] descr = descr"
| "collect (sibling # later) descr =
     (if tagName sibling \<noteq> js ''H2''
      then collect later (descr @ textContent sibling @ js ''\<newline>'')
      else descr)"

definition extractSlidesFromHtml_SlideShow :: "document \<Rightarrow> slide list" where
  "extractSlidesFromHtml_SlideShow d =
     map (\<lambda>(h2, following).
            \<lparr>title = trim (textContent h2),
             description = trim (collect (filter isElement following) [])\<rparr>)
         (querySelectorAll_h2 (docNodes d))"

section \<open>Layout commands\<close>

text \<open>
  The requests of a Slides \<^verbatim>\<open>batchUpdate\<close>, with the fields the handlers set. The
  field \<^verbatim>\<open>size\<close> is \<open>size'\<close> here and the \<^verbatim>\<open>unit\<close> of a transform is
  \<open>transform_unit\<close>.
\<close>

record dimension =
  magnitude :: int
  unit :: jsstring

record page_size =
  height :: dimension
  width :: dimension

record affine_transform =
  scaleX :: int
  scaleY :: int
  translateX :: int
  translateY :: int
  transform_unit :: jsstring

record element_properties =
  pageObjectId :: jsstring
  size' :: page_size
  transform :: affine_transform

record text_style =
  fontSize :: dimension
  bold :: bool

datatype request =
    CreateSlide jsstring jsstring
  | CreateImage jsstring jsstring element_properties
  | CreateShape jsstring jsstring element_properties
  | InsertText jsstring jsstring int
  | UpdateTextStyle jsstring text_style jsstring
  | DeleteObject jsstring

definition BACKGROUND_IMAGE_URL :: jsstring where
  "BACKGROUND_IMAGE_URL = js ''https://9b05dd864822d678c9fcbed18bf8311c.cdn.bubble.io/f1753546339862x395890190803218200/background.PNG?_gl=1*1bmqctz*_gcl_au*MTgxNzI2MDE2OC4xNzQ2NDU3OTc5*_ga*MjAzNTQ2NTk5LjE2NzcyMzIwNjY.*_ga_BFPVR2DEE2*czE3NTM1MzQ0NTckbzIxOSRnMSR0MTc1MzU0NjAzNiRqNjAkbDAkaDA.''"

definition LOGO_IMAGE_URL :: jsstring where
  "LOGO_IMAGE_URL = js ''https://9b05dd864822d678c9fcbed18bf8311c.cdn.bubble.io/f1753458006954x918763125344364000/46c94753-1589-47cd-8efa-cd023be6bd4a.png?_gl=1*zow64b*_gcl_au*MTgxNzI2MDE2OC4xNzQ2NDU3OTc5*_ga*MjAzNTQ2NTk5LjE2NzcyMzIwNjY.*_ga_BFPVR2DEE2*czE3NTM1MzQ0NTckbzIxOSRnMSR0MTc1MzU0NjAzNiRqNjAkbDAkaDA.''"

text \<open>
  The \<^verbatim>\<open>slidesData.forEach((slide, index) => ...)\<close> of POST /create-slides. The
  callback pushes eleven requests onto \<^verbatim>\<open>slideRequests\<close>: \<open>callback_create_slides\<close>
  lists them, and the loop appends them slide after slide.
\<close>

definition callback_create_slides :: "slide \<Rightarrow> nat \<Rightarrow> request list" where
  "callback_create_slides slide index =
        (let slideId = js ''slide_'' @ toString (index + 1)
         in [CreateSlide slideId (js ''BLANK''),
             CreateImage (js ''bg_'' @ slideId) BACKGROUND_IMAGE_URL
               \<lparr>pageObjectId = slideId,
                size' = \<lparr>height = \<lparr>magnitude = 405, unit = js ''PT''\<rparr>,
                         width = \<lparr>magnitude = 720, unit = js ''PT''\<rparr>\<rparr>,
                transform = \<lparr>scaleX = 1, scaleY = 1, translateX = 0, translateY = 0,
                             transform_unit = js ''PT''\<rparr>\<rparr>,
             CreateImage (js ''logo_'' @ slideId) LOGO_IMAGE_URL
               \<lparr>pageObjectId = slideId,
                size' = \<lparr>height = \<lparr>magnitude = 40, unit = js ''PT''\<rparr>,
                         width = \<lparr>magnitude = 40, unit = js ''PT''\<rparr>\<rparr>,
                transform = \<lparr>scaleX = 1, scaleY = 1, translateX = 10, translateY = 340,
                             transform_unit = js ''PT''\<rparr>\<rparr>,
             CreateShape (js ''footer_'' @ slideId) (js ''TEXT_BOX'')
               \<lparr>pageObjectId = slideId,
                size' = \<lparr>height = \<lparr>magnitude = 20, unit = js ''PT''\<rparr>,
                         width = \<lparr>magnitude = 200, unit = js ''PT''\<rparr>\<rparr>,
                transform = \<lparr>scaleX = 1, scaleY = 1, translateX = 540, translateY = 370,
                             transform_unit = js ''PT''\<rparr>\<rparr>,
             InsertText (js ''footer_'' @ slideId) (js ''HelpMeTeach.AI'') 0,
             CreateShape (js ''title_'' @ slideId) (js ''TEXT_BOX'')
               \<lparr>pageObjectId = slideId,
                size' = \<lparr>height = \<lparr>magnitude = 50, unit = js ''PT''\<rparr>,
                         width = \<lparr>magnitude = 600, unit = js ''PT''\<rparr>\<rparr>,
                transform = \<lparr>scaleX = 1, scaleY = 1, translateX = 60, translateY = 50,
                             transform_unit = js ''PT''\<rparr>\<rparr>,
             InsertText (js ''title_'' @ slideId) (title slide) 0,
             UpdateTextStyle (js ''title_'' @ slideId)
               \<lparr>fontSize = \<lparr>magnitude = 18, unit = js ''PT''\<rparr>, bold = True\<rparr>
               (js ''fontSize,bold''),
             CreateShape (js ''desc_'' @ slideId) (js ''TEXT_BOX'')
               \<lparr>pageObjectId = slideId,
                size' = \<lparr>height = \<lparr>magnitude = 80, unit = js ''PT''\<rparr>,
                         width = \<lparr>magnitude = 600, unit = js ''PT''\<rparr>\<rparr>,
                transform = \<lparr>scaleX = 1, scaleY = 1, translateX = 60, translateY = 70,
                             transform_unit = js ''PT''\<rparr>\<rparr>,
             InsertText (js ''desc_'' @ slideId) (description slide) 0,
             UpdateTextStyle (js ''desc_'' @ slideId)
               \<lparr>fontSize = \<lparr>magnitude = 14, unit = js ''PT''\<rparr>, bold = False\<rparr>
               (js ''fontSize,bold'')])"

definition slideRequests_create_slides :: "slide list \<Rightarrow> request list" where
  "slideRequests_create_slides slidesData =
     foldl (\<lambda>slideRequests (index, slide). slideRequests @ callback_create_slides slide index)
       [] (enumerate 0 slidesData)"

text \<open>The same loop as written in POST /create-slides-show.\<close>

definition callback_create_slides_show :: "slide \<Rightarrow> nat \<Rightarrow> request list" where
  "callback_create_slides_show slide index =
        (let slideId = js ''slide_'' @ toString (index + 1)
         in [CreateSlide slideId (js ''BLANK''),
             CreateImage (js ''bg_'' @ slideId) BACKGROUND_IMAGE_URL
               \<lparr>pageObjectId = slideId,
                size' = \<lparr>height = \<lparr>magnitude = 405, unit = js ''PT''\<rparr>,
                         width = \<lparr>magnitude = 720, unit = js ''PT''\<rparr>\<rparr>,
                transform = \<lparr>scaleX = 1, scaleY = 1, translateX = 0, translateY = 0,
                             transform_unit = js ''PT''\<rparr>\<rparr>,
             CreateImage (js ''logo_'' @ slideId) LOGO_IMAGE_URL
               \<lparr>pageObjectId = slideId,
                size' = \<lparr>height = \<lparr>magnitude = 40, unit = js ''PT''\<rparr>,
                         width = \<lparr>magnitude = 40, unit = js ''PT''\<rparr>\<rparr>,
                transform = \<lparr>scaleX = 1, scaleY = 1, translateX = 10, translateY = 340,
                             transform_unit = js ''PT''\<rparr>\<rparr>,
             CreateShape (js ''footer_'' @ slideId) (js ''TEXT_BOX'')
               \<lparr>pageObjectId = slideId,
                size' = \<lparr>height = \<lparr>magnitude = 20, unit = js ''PT''\<rparr>,
                         width = \<lparr>magnitude = 200, unit = js ''PT''\<rparr>\<rparr>,
                transform = \<lparr>scaleX = 1, scaleY = 1, translateX = 540, translateY = 370,
                             transform_unit = js ''PT''\<rparr>\<rparr>,
             InsertText (js ''footer_'' @ slideId) (js ''HelpMeTeach.AI'') 0,
             CreateShape (js ''title_'' @ slideId) (js ''TEXT_BOX'')
               \<lparr>pageObjectId = slideId,
                size' = \<lparr>height = \<lparr>magnitude = 50, unit = js ''PT''\<rparr>,
                         width = \<lparr>magnitude = 600, unit = js ''PT''\<rparr>\<rparr>,
                transform = \<lparr>scaleX = 1, scaleY = 1, translateX = 60, translateY = 50,
                             transform_unit = js ''PT''\<rparr>\<rparr>,
             InsertText (js ''title_'' @ slideId) (title slide) 0,
             UpdateTextStyle (js ''title_'' @ slideId)
               \<lparr>fontSize = \<lparr>magnitude = 18, unit = js ''PT''\<rparr>, bold = True\<rparr>
               (js ''fontSize,bold''),
             CreateShape (js ''desc_'' @ slideId) (js ''TEXT_BOX'')
               \<lparr>pageObjectId = slideId,
                size' = \<lparr>height = \<lparr>magnitude = 80, unit = js ''PT''\<rparr>,
                         width = \<lparr>magnitude = 600, unit = js ''PT''\<rparr>\<rparr>,
                transform = \<lparr>scaleX = 1, scaleY = 1, translateX = 60, translateY = 100,
                             transform_unit = js ''PT''\<rparr>\<rparr>,
             InsertText (js ''desc_'' @ slideId) (description slide) 0,
             UpdateTextStyle (js ''desc_'' @ slideId)
               \<lparr>fontSize = \<lparr>magnitude = 14, unit = js ''PT''\<rparr>, bold = False\<rparr>
               (js ''fontSize,bold'')])"

definition slideRequests_create_slides_show :: "slide list \<Rightarrow> request list" where
  "slideRequests_create_slides_show slidesData =
     foldl (\<lambda>slideRequests (index, slide). slideRequests @ callback_create_slides_show slide index)
       [] (enumerate 0 slidesData)"

text \<open>
  The object a request creates, and the objects it refers to: the parent slide of an
  image or shape, and the target of a text insertion or style update.
\<close>

fun creates :: "request \<Rightarrow> jsstring option" where
  "creates (CreateSlide oid layout) = Some oid"
| "creates (CreateImage oid url ep) = Some oid"
| "creates (CreateShape oid ty ep) = Some oid"
| "creates r = None"

fun refers :: "request \<Rightarrow> jsstring list" where
  "refers (CreateSlide oid layout) = []"
| "refers (CreateImage oid url ep) = [pageObjectId ep]"
| "refers (CreateShape oid ty ep) = [pageObjectId ep]"
| "refers (InsertText oid txt i) = [oid]"
| "refers (UpdateTextStyle oid st fs) = [oid]"
| "refers (DeleteObject oid) = [oid]"

fun isCreateSlide :: "request \<Rightarrow> bool" where
  "isCreateSlide (CreateSlide oid layout) = True"
| "isCreateSlide r = False"

text \<open>The identifier of an image or shape that a request creates.\<close>

fun elementId :: "request \<Rightarrow> jsstring option" where
  "elementId (CreateImage oid url ep) = Some oid"
| "elementId (CreateShape oid ty ep) = Some oid"
| "elementId r = None"

text \<open>A request list in which every referenced object was created earlier, or is in \<open>made\<close>.\<close>

fun ordered_from :: "jsstring list \<Rightarrow> request list \<Rightarrow> bool" where
  "ordered_from made [] = True"
| "ordered_from made (r # rs) =
     (list_all (\<lambda>x. x \<in> set made) (refers r) \<and>
      ordered_from (case creates r of None \<Rightarrow> made | Some oid \<Rightarrow> oid # made) rs)"

text \<open>The identifiers that a block of eleven requests creates, by position.\<close>

definition created_at :: "nat \<Rightarrow> nat \<Rightarrow> jsstring option" where
  "created_at i j =
     (if j = 0 then Some (js ''slide_'' @ toString (i + 1))
      else if j = 1 then Some (js ''bg_'' @ js ''slide_'' @ toString (i + 1))
      else if j = 2 then Some (js ''logo_'' @ js ''slide_'' @ toString (i + 1))
      else if j = 3 then Some (js ''footer_'' @ js ''slide_'' @ toString (i + 1))
      else if j = 5 then Some (js ''title_'' @ js ''slide_'' @ toString (i + 1))
      else if j = 8 then Some (js ''desc_'' @ js ''slide_'' @ toString (i + 1))
      else None)"

section \<open>Requests, replies and outside calls\<close>

text \<open>
  A value of a field of the JSON request body. \<open>JObj\<close> stands for every object and
  array; a number is the rational it denotes. A field that the body omits reads as
  \<^verbatim>\<open>undefined\<close>. A parsed body is the map of its fields; a body that is a JSON array
  has none of the fields the handlers read.
\<close>

datatype jsval = JUndefined | JNull | JBool bool | JNum rat | JStr jsstring | JObj

fun truthy :: "jsval \<Rightarrow> bool" where
  "truthy JUndefined = False"
| "truthy JNull = False"
| "truthy (JBool b) = b"
| "truthy (JNum q) = (q \<noteq> 0)"
| "truthy (JStr s) = (s \<noteq> [])"
| "truthy JObj = True"

type_synonym req_body = "string \<rightharpoonup> jsval"

definition field :: "req_body \<Rightarrow> string \<Rightarrow> jsval" where
  "field b k = (case b k of None \<Rightarrow> JUndefined | Some v \<Rightarrow> v)"

text \<open>
  \<^verbatim>\<open>req.body\<close> is the parsed body, or \<^verbatim>\<open>undefined\<close> (\<open>None\<close>) when the JSON middleware
  has parsed none: the request carries no JSON body, and the Express version in use
  leaves the property unset. Every handler starts with \<^verbatim>\<open>const { ... } = req.body\<close>
  inside its \<^verbatim>\<open>try\<close>, which throws on \<^verbatim>\<open>undefined\<close>.
\<close>

definition destructure :: "req_body option \<Rightarrow> exn + req_body" where
  "destructure req_body = (case req_body of None \<Rightarrow> Inl TypeError | Some b \<Rightarrow> Inr b)"

datatype reply = Error jsstring | ErrorMessage exn | Url jsstring

record response =
  status :: nat
  reply :: reply

type_synonym buffer = "8 word list"

datatype direction = RIGHT_TO_LEFT | LEFT_TO_RIGHT

record doc_range =
  startIndex :: int
  endIndex :: int

datatype docs_request = UpdateParagraphStyle doc_range direction jsstring

text \<open>
  The \<^verbatim>\<open>repeatCell\<close> requests of the spreadsheet handler: a row range (sheet, start
  row, end row), a format (background colour, horizontal alignment, and a text format of
  foreground colour, font size and bold) and the field mask.
\<close>

datatype color = Color rat rat rat
datatype text_format = TextFormat "color option" int "bool option"
datatype cell_format = UserEnteredFormat color "jsstring option" text_format
datatype grid_range = GridRange int nat nat
datatype sheet_request = RepeatCell grid_range cell_format jsstring

text \<open>
  The calls that leave the handler: the DOCX conversion, the temporary file, and the
  Drive, Docs, Sheets and Slides clients, which carry the caller's access token.
\<close>

datatype ext_call =
    HtmlToDocx jsstring
  | WriteFileSync buffer
  | UnlinkSync
  | DriveFilesCreate jsval jsval
  | DocsDocumentsGet jsval jsstring
  | DocsDocumentsBatchUpdate jsval jsstring "docs_request list"
  | SheetsCreate jsval jsval
  | SheetsValuesUpdate jsval jsstring jsstring "jsstring list list"
  | SheetsBatchUpdate jsval jsstring "sheet_request list"
  | PresentationsCreate jsval jsval
  | PresentationsGet jsval jsstring
  | PresentationsBatchUpdate jsval jsstring "request list"

text \<open>
  What the libraries and services answer: \<open>Inl\<close> is a thrown exception or a rejected
  promise. \<open>base64_decode\<close> is \<^verbatim>\<open>Buffer.from(x, "base64").toString("utf8")\<close>, \<open>jsdom\<close> is
  \<^verbatim>\<open>new JSDOM(html)\<close>, and \<open>table_values\<close> is the cell grid that \<^verbatim>\<open>parseDocument\<close> and
  \<^verbatim>\<open>selectAll\<close> read from the first table. A Docs document is answered as the end indices
  of its structural elements, a presentation as the identifiers of its slides.
\<close>

record env =
  base64_decode :: "jsval \<Rightarrow> exn + jsstring"
  jsdom :: "jsstring \<Rightarrow> exn + document"
  table_values :: "jsstring \<Rightarrow> exn + jsstring list list"
  htmlToDocx :: "jsstring \<Rightarrow> exn + buffer"
  writeFileSync :: "buffer \<Rightarrow> exn + unit"
  unlinkSync :: "exn + unit"
  drive_files_create :: "jsval \<Rightarrow> jsval \<Rightarrow> exn + jsstring"
  docs_documents_get :: "jsval \<Rightarrow> jsstring \<Rightarrow> exn + int list"
  docs_documents_batchUpdate :: "jsval \<Rightarrow> jsstring \<Rightarrow> docs_request list \<Rightarrow> exn + unit"
  sheets_create :: "jsval \<Rightarrow> jsval \<Rightarrow> exn + jsstring"
  sheets_values_update :: "jsval \<Rightarrow> jsstring \<Rightarrow> jsstring \<Rightarrow> jsstring list list \<Rightarrow> exn + unit"
  sheets_batchUpdate :: "jsval \<Rightarrow> jsstring \<Rightarrow> sheet_request list \<Rightarrow> exn + unit"
  presentations_create :: "jsval \<Rightarrow> jsval \<Rightarrow> exn + jsstring"
  presentations_get :: "jsval \<Rightarrow> jsstring \<Rightarrow> exn + jsstring list"
  presentations_batchUpdate :: "jsval \<Rightarrow> jsstring \<Rightarrow> request list \<Rightarrow> exn + unit"

text \<open>
  A handler body computes a value or throws, and leaves the list of outside calls it
  made, in order.
\<close>

type_synonym 'a io = "(exn + 'a) \<times> ext_call list"

definition ret :: "'a \<Rightarrow> 'a io" where
  "ret x = (Inr x, [])"

definition lift :: "exn + 'a \<Rightarrow> 'a io" where
  "lift r = (r, [])"

definition call :: "ext_call \<Rightarrow> exn + 'a \<Rightarrow> 'a io" where
  "call c r = (r, [c])"

definition andThen :: "'a io \<Rightarrow> ('a \<Rightarrow> 'b io) \<Rightarrow> 'b io" where
  "andThen m f =
     (case m of
        (Inl e, calls) \<Rightarrow> (Inl e, calls)
      | (Inr x, calls) \<Rightarrow> (case f x of (r, calls') \<Rightarrow> (r, calls @ calls')))"

text \<open>
  The \<^verbatim>\<open>try { ... } catch (err) { res.status(500).json({ error: err.message }) }\<close> around
  every handler body. The line that the catch block writes to the console is left out.
\<close>

definition handler :: "response io \<Rightarrow> response \<times> ext_call list" where
  "handler m =
     (case m of
        (Inl e, calls) \<Rightarrow> (\<lparr>status = 500, reply = ErrorMessage e\<rparr>, calls)
      | (Inr r, calls) \<Rightarrow> (r, calls))"

section \<open>POST /upload-doc\<close>

text \<open>
  The test of \<^verbatim>\<open>html\<close> against the character class of the code units U+0590 to
  U+05FF and U+0600 to U+06FF.
\<close>

definition isArabic :: "jsstring \<Rightarrow> bool" where
  "isArabic html =
     list_ex (\<lambda>c. (0x0590 \<le> c \<and> c \<le> 0x05FF) \<or> (0x0600 \<le> c \<and> c \<le> 0x06FF)) html"

definition upload_doc :: "env \<Rightarrow> req_body option \<Rightarrow> response \<times> ext_call list" where
  "upload_doc env req_body =
     handler (andThen (lift (destructure req_body)) (\<lambda>b.
       let html_base64 = field b ''html_base64'';
           access_token = field b ''access_token'';
           file_name = field b ''file_name''
       in
        (if \<not> truthy html_base64 \<or> \<not> truthy access_token \<or> \<not> truthy file_name then
           ret \<lparr>status = 400, reply = Error (js ''Missing required fields.'')\<rparr>
         else
           andThen (lift (base64_decode env html_base64)) (\<lambda>html.
           andThen (call (HtmlToDocx html) (htmlToDocx env html)) (\<lambda>docxBuffer.
           andThen (call (WriteFileSync docxBuffer) (writeFileSync env docxBuffer)) (\<lambda>u.
           andThen (call (DriveFilesCreate access_token file_name)
                      (drive_files_create env access_token file_name)) (\<lambda>dcoument_ID.
           andThen (call UnlinkSync (unlinkSync env)) (\<lambda>u.
           andThen (call (DocsDocumentsGet access_token dcoument_ID)
                      (docs_documents_get env access_token dcoument_ID)) (\<lambda>content.
           andThen (lift (if content = [] then Inl TypeError else Inr (last content)))
             (\<lambda>endIndex.
           let requests =
                 [UpdateParagraphStyle \<lparr>startIndex = 1, endIndex = endIndex\<rparr>
                    (if isArabic html then RIGHT_TO_LEFT else LEFT_TO_RIGHT)
                    (js ''direction'')]
           in
           andThen (call (DocsDocumentsBatchUpdate access_token dcoument_ID requests)
                      (docs_documents_batchUpdate env access_token dcoument_ID requests)) (\<lambda>u.
           ret \<lparr>status = 200,
                reply = Url (js ''https://docs.google.com/document/d/'' @ dcoument_ID
                             @ js ''/edit'')\<rparr>)))))))))))"

section \<open>POST /create-styled-sheet\<close>




section \<open>POST /create-slides and POST /create-slides-show\<close>

text \<open>
  \<^verbatim>\<open>file_name && file_name.trim() ? file_name : "My Presentation"\<close>. A truthy value
  that is not a string has no \<^verbatim>\<open>trim\<close> method, and the call throws.
\<close>

definition presentationTitle :: "jsval \<Rightarrow> exn + jsval" where
  "presentationTitle file_name =
     (if truthy file_name then
        (case file_name of
           JStr s \<Rightarrow> Inr (if trim s \<noteq> [] then JStr s else JStr (js ''My Presentation''))
         | v \<Rightarrow> Inl TypeError)
      else Inr (JStr (js ''My Presentation'')))"

text \<open>
  The part of both slide handlers after segmentation: create the presentation, delete
  its default slide, send the layout requests.
\<close>

definition build_presentation ::
  "env \<Rightarrow> jsval \<Rightarrow> jsval \<Rightarrow> request list \<Rightarrow> response io" where
  "build_presentation env access_token file_name slideRequests =
     andThen (lift (presentationTitle file_name)) (\<lambda>title'.
     andThen (call (PresentationsCreate access_token title')
                (presentations_create env access_token title')) (\<lambda>presentationId.
     andThen (call (PresentationsGet access_token presentationId)
                (presentations_get env access_token presentationId)) (\<lambda>defaultSlides.
     andThen (lift (case defaultSlides of [] \<Rightarrow> Inl TypeError | s # more' \<Rightarrow> Inr s))
       (\<lambda>defaultSlideId.
     andThen (call (PresentationsBatchUpdate access_token presentationId
                      [DeleteObject defaultSlideId])
                (presentations_batchUpdate env access_token presentationId
                   [DeleteObject defaultSlideId])) (\<lambda>u.
     andThen (call (PresentationsBatchUpdate access_token presentationId slideRequests)
                (presentations_batchUpdate env access_token presentationId slideRequests))
       (\<lambda>u.
     ret \<lparr>status = 200,
          reply = Url (js ''https://docs.google.com/presentation/d/'' @ presentationId
                       @ js ''/edit'')\<rparr>))))))"

definition create_slides :: "env \<Rightarrow> req_body option \<Rightarrow> response \<times> ext_call list" where
  "create_slides env req_body =
     handler (andThen (lift (destructure req_body)) (\<lambda>b.
       let access_token = field b ''access_token'';
           html_base64 = field b ''html_base64'';
           file_name = field b ''file_name''
       in
        (if \<not> truthy access_token \<or> \<not> truthy html_base64 then
           ret \<lparr>status = 400,
                reply = Error (js (''Missing 'access_token' or 'html_base64'' @ [CHR 0x27]))\<rparr>
         else
           andThen (lift (base64_decode env html_base64)) (\<lambda>htmlContent.
           andThen (lift (case jsdom env htmlContent of
                            Inl e \<Rightarrow> Inl e
                          | Inr d \<Rightarrow> extractSlidesFromHtml d)) (\<lambda>slidesData.
           if slidesData = [] then
             ret \<lparr>status = 400, reply = Error (js ''No valid slides found in HTML.'')\<rparr>
           else
             build_presentation env access_token file_name
               (slideRequests_create_slides slidesData))))))"

definition create_slides_show :: "env \<Rightarrow> req_body option \<Rightarrow> response \<times> ext_call list" where
  "create_slides_show env req_body =
     handler (andThen (lift (destructure req_body)) (\<lambda>b.
       let access_token = field b ''access_token'';
           html_base64 = field b ''html_base64'';
           file_name = field b ''file_name''
       in
        (if \<not> truthy access_token \<or> \<not> truthy html_base64 then
           ret \<lparr>status = 400,
                reply = Error (js (''Missing 'access_token' or 'html_base64'' @ [CHR 0x27]))\<rparr>
         else
           andThen (lift (base64_decode env html_base64)) (\<lambda>htmlContent.
           andThen (lift (case jsdom env htmlContent of
                            Inl e \<Rightarrow> Inl e
                          | Inr d \<Rightarrow> Inr (extractSlidesFromHtml_SlideShow d))) (\<lambda>slidesData.
           if slidesData = [] then
             ret \<lparr>status = 400, reply = Error (js ''No valid slides found in HTML.'')\<rparr>
           else
             build_presentation env access_token file_name
               (slideRequests_create_slides_show slidesData))))))"

section \<open>Notions used in the statements\<close>

text \<open>The elements among the given nodes and below them, in tree order.\<close>

definition all_elements :: "node list \<Rightarrow> node list" where
  "all_elements ns = concat (map (\<lambda>c. if isElement c then c # descendants c else []) ns)"

text \<open>The h2 elements of a document, in document order.\<close>

definition h2_elements :: "document \<Rightarrow> node list" where
  "h2_elements d = filter (\<lambda>e. tagName e = js ''H2'') (all_elements (docNodes d))"

text \<open>
  The elements that the examples are made of: a paragraph of plain text, a paragraph
  that holds one bold run and nothing else, a second-level heading, and a document with
  an empty head and the given body.
\<close>

definition plain_paragraph :: "jsstring \<Rightarrow> node" where
  "plain_paragraph s = Element (js ''P'') [Text s]"

definition bold_paragraph :: "jsstring \<Rightarrow> node" where
  "bold_paragraph s = Element (js ''P'') [Element (js ''STRONG'') [Text s]]"

definition heading2 :: "jsstring \<Rightarrow> node" where
  "heading2 s = Element (js ''H2'') [Text s]"

definition html_document :: "node list \<Rightarrow> document" where
  "html_document ns =
     Document [Element (js ''HTML'') [Element (js ''HEAD'') [], Element (js ''BODY'') ns]]"

text \<open>The test of the segmenter's loop: the element opens a new slide.\<close>

definition titleBoundary :: "node \<Rightarrow> bool" where
  "titleBoundary el \<longleftrightarrow> tagName el = js ''P'' \<and> isStrongOnlyTitle el"

text \<open>What a run of content elements adds to the buffer.\<close>

definition buffered :: "node list \<Rightarrow> jsstring list" where
  "buffered els = filter (\<lambda>t. t \<noteq> []) (map (\<lambda>el. trim (collapse (textContent el))) els)"

text \<open>
  The segmenter told without the shared reference: \<open>seg_groups cur buf els\<close> lists the
  slides that the loop and the trailing statement leave when the open slide is \<open>cur\<close>,
  the buffer is \<open>buf\<close> and the elements \<open>els\<close> remain. \<open>close\<close> writes the buffer
  into the open slide. The loop is shown below to compute this list.
\<close>

fun close :: "slide option \<Rightarrow> jsstring list \<Rightarrow> slide list" where
  "close None buf = []"
| "close (Some s) buf = [s\<lparr>description := trim (join (js ''\<newline>\<newline>'') buf)\<rparr>]"

fun seg_groups :: "slide option \<Rightarrow> jsstring list \<Rightarrow> node list \<Rightarrow> slide list" where
  "seg_groups cur buf [] = close cur buf"
| "seg_groups cur buf (el # els) =
     (if titleBoundary el
      then close cur buf @
           seg_groups (Some \<lparr>title = trim (textContent el), description = []\<rparr>) [] els
      else seg_groups cur (buf @ buffered [el]) els)"

text \<open>
  What holds of the loop's variables between iterations: \<^verbatim>\<open>lastSlide\<close> is the last
  element of \<^verbatim>\<open>slides\<close>, and its description is still empty.
\<close>

definition seg_inv :: "seg_state \<Rightarrow> bool" where
  "seg_inv st \<longleftrightarrow>
     (case lastSlide st of
        None \<Rightarrow> slides st = []
      | Some i \<Rightarrow> slides st \<noteq> [] \<and> i = length (slides st) - 1 \<and>
                  description (last (slides st)) = [])"

definition open_slide :: "seg_state \<Rightarrow> slide option" where
  "open_slide st = (if slides st = [] then None else Some (last (slides st)))"

text \<open>A non-empty string with no white space at either end.\<close>

definition tight :: "jsstring \<Rightarrow> bool" where
  "tight s \<longleftrightarrow> s \<noteq> [] \<and> \<not> isWhiteSpace (hd s) \<and> \<not> isWhiteSpace (last s)"

text \<open>
  The code points of a string: a high surrogate followed by a low surrogate is one code
  point above U+FFFF, every other code unit is the code point of its value.
\<close>

fun codePoints :: "jsstring \<Rightarrow> nat list" where
  "codePoints [] = []"
| "codePoints [u] = [unat u]"
| "codePoints (u # v # rest) =
     (if 0xD800 \<le> u \<and> u \<le> 0xDBFF \<and> 0xDC00 \<le> v \<and> v \<le> 0xDFFF
      then (0x10000 + (unat u - 0xD800) * 0x400 + (unat v - 0xDC00)) # codePoints rest
      else unat u # codePoints (v # rest))"

text \<open>The Hebrew block U+0590 to U+05FF and the Arabic block U+0600 to U+06FF.\<close>

definition hebrew :: "nat \<Rightarrow> bool" where
  "hebrew cp \<longleftrightarrow> 0x0590 \<le> cp \<and> cp \<le> 0x05FF"

definition arabic :: "nat \<Rightarrow> bool" where
  "arabic cp \<longleftrightarrow> 0x0600 \<le> cp \<and> cp \<le> 0x06FF"

text \<open>
  For the examples: surroundings in which every call succeeds, the request body decodes
  to \<open>html\<close> and parses to \<open>d\<close>; and a request body with all fields.
\<close>

definition env_ok :: "jsstring \<Rightarrow> document \<Rightarrow> env" where
  "env_ok html d =
     \<lparr>base64_decode = (\<lambda>v. Inr html),
      jsdom = (\<lambda>s. Inr d),
      table_values = (\<lambda>s. Inr []),
      htmlToDocx = (\<lambda>s. Inr []),
      writeFileSync = (\<lambda>buf. Inr ()),
      unlinkSync = Inr (),
      drive_files_create = (\<lambda>t n. Inr (js ''doc1'')),
      docs_documents_get = (\<lambda>t i. Inr [1, 42]),
      docs_documents_batchUpdate = (\<lambda>t i rs. Inr ()),
      sheets_create = (\<lambda>t n. Inr (js ''sheet1'')),
      sheets_values_update = (\<lambda>t i r vs. Inr ()),
      sheets_batchUpdate = (\<lambda>t i rs. Inr ()),
      presentations_create = (\<lambda>t n. Inr (js ''pres1'')),
      presentations_get = (\<lambda>t i. Inr [js ''p'']),
      presentations_batchUpdate = (\<lambda>t i rs. Inr ())\<rparr>"

definition sample_body :: req_body where
  "sample_body = [''access_token'' \<mapsto> JStr (js ''token''), ''html_base64'' \<mapsto> JStr (js ''aHRtbA==''),
                  ''file_name'' \<mapsto> JStr (js ''deck'')]"


section \<open>Properties of the layout projection\<close>

lemma foldl_push_concat:
  "foldl (\<lambda>acc x. acc @ f x) a xs = a @ concat (map f xs)"
  by (induction xs arbitrary: a) simp_all

lemma slideRequests_create_slides_concat:
  "slideRequests_create_slides ss =
     concat (map (\<lambda>(index, slide). callback_create_slides slide index) (enumerate 0 ss))"
  unfolding slideRequests_create_slides_def
  using foldl_push_concat [of "\<lambda>(index, slide). callback_create_slides slide index" "[]" "enumerate 0 ss"]
  by (simp add: case_prod_unfold)

lemma concat_blocks_length:
  "\<forall>x\<in>set xs. length (f x) = n \<Longrightarrow> length (concat (map f xs)) = n * length xs"
  by (induction xs) simp_all

lemma concat_blocks_nth:
  "\<forall>x\<in>set xs. length (f x) = n \<Longrightarrow> i < length xs \<Longrightarrow> j < n \<Longrightarrow>
     concat (map f xs) ! (n * i + j) = f (xs ! i) ! j"
proof (induction xs arbitrary: i)
  case Nil
  then show ?case by simp
next
  case (Cons x xs)
  show ?case
  proof (cases i)
    case 0
    with Cons.prems show ?thesis by (simp add: nth_append)
  next
    case (Suc k)
    with Cons.prems have "concat (map f xs) ! (n * k + j) = f (xs ! k) ! j"
      using Cons.IH [of k] by simp
    moreover have "n * i + j = n + (n * k + j)" using Suc by simp
    ultimately show ?thesis using Cons.prems Suc by (simp add: nth_append)
  qed
qed

lemma length_callback_create_slides: "length (callback_create_slides s i) = 11"
  by (simp add: callback_create_slides_def Let_def)


lemma length_callback_create_slides_show: "length (callback_create_slides_show s i) = 11"
  by (simp add: callback_create_slides_show_def Let_def)

lemma slideRequests_create_slides_show_concat:
  "slideRequests_create_slides_show ss =
     concat (map (\<lambda>(index, slide). callback_create_slides_show slide index) (enumerate 0 ss))"
  unfolding slideRequests_create_slides_show_def
  using foldl_push_concat [of "\<lambda>(index, slide). callback_create_slides_show slide index" "[]" "enumerate 0 ss"]
  by (simp add: case_prod_unfold)

lemma ordered_from_nth:
  "ordered_from made rs \<Longrightarrow> j < length rs \<Longrightarrow> x \<in> set (refers (rs ! j)) \<Longrightarrow>
     x \<in> set made \<or> (\<exists>k<j. creates (rs ! k) = Some x)"
proof (induction rs arbitrary: made j)
  case Nil
  then show ?case by simp
next
  case (Cons r rs)
  show ?case
  proof (cases j)
    case 0
    with Cons.prems show ?thesis by (simp add: list_all_iff)
  next
    case (Suc m)
    let ?made = "case creates r of None \<Rightarrow> made | Some oid \<Rightarrow> oid # made"
    from Cons.prems Suc have "x \<in> set ?made \<or> (\<exists>k<m. creates (rs ! k) = Some x)"
      using Cons.IH [of ?made m] by simp
    then show ?thesis
    proof
      assume "x \<in> set ?made"
      then have "x \<in> set made \<or> creates r = Some x"
        by (cases "creates r") auto
      then show ?thesis using Suc by auto
    next
      assume "\<exists>k<m. creates (rs ! k) = Some x"
      then obtain k where "k < m" "creates (rs ! k) = Some x" by blast
      then have "Suc k < j \<and> creates ((r # rs) ! Suc k) = Some x" using Suc by simp
      then show ?thesis by blast
    qed
  qed
qed

lemma callback_create_slides_ordered: "ordered_from [] (callback_create_slides s i)"
  by (simp add: callback_create_slides_def Let_def)

lemma callback_create_slides_show_ordered: "ordered_from [] (callback_create_slides_show s i)"
  by (simp add: callback_create_slides_show_def Let_def)

lemma callback_create_slides_ids:
  "\<forall>r\<in>set (callback_create_slides s i). \<forall>oid. elementId r = Some oid \<longrightarrow>
     sublist (toString (i + 1)) oid"
  by (auto simp: callback_create_slides_def Let_def simp flip: append_assoc)

lemma callback_create_slides_show_ids:
  "\<forall>r\<in>set (callback_create_slides_show s i). \<forall>oid. elementId r = Some oid \<longrightarrow>
     sublist (toString (i + 1)) oid"
  by (auto simp: callback_create_slides_show_def Let_def simp flip: append_assoc)

lemma callback_create_slides_hd:
  "callback_create_slides s i ! 0 = CreateSlide (js ''slide_'' @ toString (i + 1)) (js ''BLANK'')"
  by (simp add: callback_create_slides_def Let_def)

lemma callback_create_slides_show_hd:
  "callback_create_slides_show s i ! 0 = CreateSlide (js ''slide_'' @ toString (i + 1)) (js ''BLANK'')"
  by (simp add: callback_create_slides_show_def Let_def)

lemma callback_create_slides_one:
  "length (filter isCreateSlide (callback_create_slides s i)) = 1"
  by (simp add: callback_create_slides_def Let_def)

lemma callback_create_slides_show_one:
  "length (filter isCreateSlide (callback_create_slides_show s i)) = 1"
  by (simp add: callback_create_slides_show_def Let_def)

lemma count_in_blocks:
  "\<forall>x\<in>set xs. length (filter P (f x)) = 1 \<Longrightarrow> length (filter P (concat (map f xs))) = length xs"
  by (induction xs) simp_all

lemma toString_nonempty: "toString n \<noteq> []"
  by (subst toString.simps) simp

lemma digit_inj:
  fixes a b :: nat
  assumes "a < 10" "b < 10" "(of_nat (48 + a) :: jschar) = of_nat (48 + b)"
  shows "a = b"
proof -
  have "unat (of_nat (48 + a) :: jschar) = unat (of_nat (48 + b) :: jschar)"
    using assms(3) by (rule arg_cong)
  moreover have "unat (of_nat (48 + a) :: jschar) = 48 + a"
    using assms(1) by (simp only: unat_of_nat) simp
  moreover have "unat (of_nat (48 + b) :: jschar) = 48 + b"
    using assms(2) by (simp only: unat_of_nat) simp
  ultimately show ?thesis by simp
qed

lemma toString_inj: "toString m = toString n \<Longrightarrow> m = n"
proof (induction m arbitrary: n rule: toString.induct)
  case (1 m)
  show ?case
  proof (cases "m < 10")
    case True
    then have m: "toString m = [of_nat (48 + m)]" by (subst toString.simps) simp
    show ?thesis
    proof (cases "n < 10")
      case n: True
      then have "toString n = [of_nat (48 + n)]" by (subst toString.simps) simp
      with m "1.prems" True n show ?thesis using digit_inj by simp
    next
      case n: False
      then have "toString n = toString (n div 10) @ [of_nat (48 + n mod 10)]"
        by (subst toString.simps) simp
      with m "1.prems" toString_nonempty [of "n div 10"] show ?thesis by simp
    qed
  next
    case False
    then have m: "toString m = toString (m div 10) @ [of_nat (48 + m mod 10)]"
      by (subst toString.simps) simp
    show ?thesis
    proof (cases "n < 10")
      case n: True
      then have "toString n = [of_nat (48 + n)]" by (subst toString.simps) simp
      with m "1.prems" toString_nonempty [of "m div 10"] show ?thesis by simp
    next
      case n: False
      then have "toString n = toString (n div 10) @ [of_nat (48 + n mod 10)]"
        by (subst toString.simps) simp
      with m "1.prems" have eq: "toString (m div 10) = toString (n div 10)"
        and d: "(of_nat (48 + m mod 10) :: jschar) = of_nat (48 + n mod 10)"
        by simp_all
      from "1.IH" [OF False eq] have "m div 10 = n div 10" .
      moreover have "m mod 10 = n mod 10" using digit_inj [OF _ _ d] by simp
      ultimately show ?thesis by (metis div_mult_mod_eq)
    qed
  qed
qed

lemma lt11:
  "j < 11 \<Longrightarrow> j = 0 \<or> j = 1 \<or> j = 2 \<or> j = 3 \<or> j = 4 \<or> j = 5 \<or> j = 6 \<or> j = 7 \<or>
     j = 8 \<or> j = 9 \<or> j = (10::nat)"
  by arith

lemma callback_create_slides_creates:
  "j < 11 \<Longrightarrow> creates (callback_create_slides s i ! j) = created_at i j"
  by (drule lt11) (auto simp: callback_create_slides_def created_at_def Let_def)

lemma callback_create_slides_show_creates:
  "j < 11 \<Longrightarrow> creates (callback_create_slides_show s i ! j) = created_at i j"
  by (drule lt11) (auto simp: callback_create_slides_show_def created_at_def Let_def)

lemma created_at_cases:
  assumes "created_at i j = Some x"
  shows "j = 0 \<and> x = js ''slide_'' @ toString (i + 1) \<or>
         j = 1 \<and> x = js ''bg_'' @ js ''slide_'' @ toString (i + 1) \<or>
         j = 2 \<and> x = js ''logo_'' @ js ''slide_'' @ toString (i + 1) \<or>
         j = 3 \<and> x = js ''footer_'' @ js ''slide_'' @ toString (i + 1) \<or>
         j = 5 \<and> x = js ''title_'' @ js ''slide_'' @ toString (i + 1) \<or>
         j = 8 \<and> x = js ''desc_'' @ js ''slide_'' @ toString (i + 1)"
  using assms by (simp add: created_at_def split: if_splits)

lemma created_at_inj:
  assumes "created_at i j = Some x" "created_at i' j' = Some x"
  shows "i = i' \<and> j = j'"
  using created_at_cases [OF assms(1)] created_at_cases [OF assms(2)]
  by (elim disjE conjE) (auto simp: js_def dest!: toString_inj)

text \<open>What the two loops share: a list made of one block of eleven requests per slide.\<close>

lemma blocks_layout:
  assumes rs: "rs = concat (map (\<lambda>(index, slide). cb slide index) (enumerate 0 ss))"
    and len: "\<And>s i. length (cb s i) = 11"
    and one: "\<And>s i. length (filter isCreateSlide (cb s i)) = 1"
    and hd: "\<And>s i. cb s i ! 0 = CreateSlide (js ''slide_'' @ toString (i + 1)) (js ''BLANK'')"
    and ids: "\<And>s i. \<forall>r\<in>set (cb s i). \<forall>oid. elementId r = Some oid \<longrightarrow>
                sublist (toString (i + 1)) oid"
    and ord: "\<And>s i. ordered_from [] (cb s i)"
    and cr: "\<And>s i j. j < 11 \<Longrightarrow> creates (cb s i ! j) = created_at i j"
  shows "length rs = 11 * length ss"
    and "length (filter isCreateSlide rs) = length ss"
    and "\<forall>i<length ss. rs ! (11 * i) = CreateSlide (js ''slide_'' @ toString (i + 1)) (js ''BLANK'')"
    and "\<forall>i<length ss. \<forall>j<11. \<forall>oid. elementId (rs ! (11 * i + j)) = Some oid \<longrightarrow>
           sublist (toString (i + 1)) oid"
    and "\<forall>p<length rs. \<forall>x\<in>set (refers (rs ! p)). \<exists>k<p. creates (rs ! k) = Some x"
    and "\<forall>k<length rs. \<forall>k'<length rs. \<forall>x.
           creates (rs ! k) = Some x \<and> creates (rs ! k') = Some x \<longrightarrow> k = k'"
proof -
  let ?f = "\<lambda>(index, slide). cb slide index"
  let ?xs = "enumerate 0 ss"
  have all11: "\<forall>x\<in>set ?xs. length (?f x) = 11" using len by auto
  show L: "length rs = 11 * length ss"
    using concat_blocks_length [OF all11] rs by simp
  have all1: "\<forall>x\<in>set ?xs. length (filter isCreateSlide (?f x)) = 1" using one by auto
  show "length (filter isCreateSlide rs) = length ss"
    using count_in_blocks [OF all1] rs by simp
  have nth: "rs ! (11 * i + j) = cb (ss ! i) i ! j" if "i < length ss" "j < 11" for i j
    using concat_blocks_nth [OF all11, of i j] that rs by (simp add: nth_enumerate_eq)
  show "\<forall>i<length ss. rs ! (11 * i) = CreateSlide (js ''slide_'' @ toString (i + 1)) (js ''BLANK'')"
    using nth [of _ 0] hd by simp
  show "\<forall>i<length ss. \<forall>j<11. \<forall>oid. elementId (rs ! (11 * i + j)) = Some oid \<longrightarrow>
           sublist (toString (i + 1)) oid"
  proof (intro allI impI)
    fix i j oid
    assume i: "i < length ss" and j: "j < 11"
      and e: "elementId (rs ! (11 * i + j)) = Some oid"
    have "cb (ss ! i) i ! j \<in> set (cb (ss ! i) i)" using j len by simp
    then show "sublist (toString (i + 1)) oid" using ids e nth [OF i j] by simp
  qed
  show "\<forall>p<length rs. \<forall>x\<in>set (refers (rs ! p)). \<exists>k<p. creates (rs ! k) = Some x"
  proof (intro allI impI ballI)
    fix p x
    assume p: "p < length rs" and x: "x \<in> set (refers (rs ! p))"
    define i where "i = p div 11"
    define j where "j = p mod 11"
    have pij: "p = 11 * i + j" and j: "j < 11" by (simp_all add: i_def j_def)
    have i: "i < length ss" using p L pij by simp
    have "x \<in> set (refers (cb (ss ! i) i ! j))" using x nth [OF i j] pij by simp
    then obtain k where k: "k < j" "creates (cb (ss ! i) i ! k) = Some x"
      using ordered_from_nth [OF ord, of j "ss ! i" i x] j len by auto
    then have "11 * i + k < p \<and> creates (rs ! (11 * i + k)) = Some x"
      using nth [OF i, of k] j pij by simp
    then show "\<exists>k<p. creates (rs ! k) = Some x" by blast
  qed
  show "\<forall>k<length rs. \<forall>k'<length rs. \<forall>x.
           creates (rs ! k) = Some x \<and> creates (rs ! k') = Some x \<longrightarrow> k = k'"
  proof (intro allI impI)
    fix k k' x
    assume k: "k < length rs" and k': "k' < length rs"
      and c: "creates (rs ! k) = Some x \<and> creates (rs ! k') = Some x"
    define i j where "i = k div 11" and "j = k mod 11"
    define i' j' where "i' = k' div 11" and "j' = k' mod 11"
    have kij: "k = 11 * i + j" and j: "j < 11" by (simp_all add: i_def j_def)
    have kij': "k' = 11 * i' + j'" and j': "j' < 11" by (simp_all add: i'_def j'_def)
    have i: "i < length ss" using k L kij by simp
    have i': "i' < length ss" using k' L kij' by simp
    have "created_at i j = Some x"
      using c nth [OF i j] cr [OF j] kij by simp
    moreover have "created_at i' j' = Some x"
      using c nth [OF i' j'] cr [OF j'] kij' by simp
    ultimately have "i = i' \<and> j = j'" by (rule created_at_inj)
    then show "k = k'" using kij kij' by simp
  qed
qed

text \<open>
  C1. For a list of N slide records, the request list built by POST /create-slides and
  the one built by POST /create-slides-show both hold eleven requests per slide and
  exactly N slide-creation requests, the one of the slide at 1-based ordinal \<open>i + 1\<close>
  at position \<open>11 * i\<close>; the identifier of every image or shape created among the
  eleven requests of that slide contains the decimal numeral of \<open>i + 1\<close>; and every
  object that a request refers to (the parent slide of an image or shape, the target of
  a text insertion or of a style update) is created by a request at a smaller position,
  and no identifier is created by two requests of the list.
\<close>

theorem layout_projection:
  assumes "rs = slideRequests_create_slides slidesData \<or>
           rs = slideRequests_create_slides_show slidesData"
  shows "length rs = 11 * length slidesData \<and>
         length (filter isCreateSlide rs) = length slidesData \<and>
         (\<forall>i<length slidesData.
            rs ! (11 * i) = CreateSlide (js ''slide_'' @ toString (i + 1)) (js ''BLANK'')) \<and>
         (\<forall>i<length slidesData. \<forall>j<11. \<forall>oid.
            elementId (rs ! (11 * i + j)) = Some oid \<longrightarrow> sublist (toString (i + 1)) oid) \<and>
         (\<forall>p<length rs. \<forall>x\<in>set (refers (rs ! p)). \<exists>k<p. creates (rs ! k) = Some x) \<and>
         (\<forall>k<length rs. \<forall>k'<length rs. \<forall>x.
            creates (rs ! k) = Some x \<and> creates (rs ! k') = Some x \<longrightarrow> k = k')"
  using assms
proof
  assume "rs = slideRequests_create_slides slidesData"
  then have rs: "rs = concat (map (\<lambda>(index, slide). callback_create_slides slide index)
                         (enumerate 0 slidesData))"
    by (simp add: slideRequests_create_slides_concat)
  show ?thesis
    using blocks_layout [OF rs length_callback_create_slides callback_create_slides_one
        callback_create_slides_hd callback_create_slides_ids
        callback_create_slides_ordered callback_create_slides_creates]
    by blast
next
  assume "rs = slideRequests_create_slides_show slidesData"
  then have rs: "rs = concat (map (\<lambda>(index, slide). callback_create_slides_show slide index)
                         (enumerate 0 slidesData))"
    by (simp add: slideRequests_create_slides_show_concat)
  show ?thesis
    using blocks_layout [OF rs length_callback_create_slides_show callback_create_slides_show_one
        callback_create_slides_show_hd callback_create_slides_show_ids
        callback_create_slides_show_ordered callback_create_slides_show_creates]
    by blast
qed

theorem layout_projection_witness:
  "length (slideRequests_create_slides_show
      [\<lparr>title = js ''A'', description = js ''x''\<rparr>, \<lparr>title = js ''B'', description = js ''y''\<rparr>]) = 22 \<and>
   length (filter isCreateSlide (slideRequests_create_slides_show
      [\<lparr>title = js ''A'', description = js ''x''\<rparr>, \<lparr>title = js ''B'', description = js ''y''\<rparr>])) = 2 \<and>
   sublist (toString 2) (js ''desc_slide_2'') \<and>
   (\<exists>k<20. creates (slideRequests_create_slides_show
      [\<lparr>title = js ''A'', description = js ''x''\<rparr>, \<lparr>title = js ''B'', description = js ''y''\<rparr>] ! k)
        = Some (js ''desc_slide_2''))"
proof -
  let ?ss = "[\<lparr>title = js ''A'', description = js ''x''\<rparr>, \<lparr>title = js ''B'', description = js ''y''\<rparr>]"
  let ?rs = "slideRequests_create_slides_show ?ss"
  have T: "length ?rs = 11 * length ?ss \<and>
         length (filter isCreateSlide ?rs) = length ?ss \<and>
         (\<forall>i<length ?ss.
            ?rs ! (11 * i) = CreateSlide (js ''slide_'' @ toString (i + 1)) (js ''BLANK'')) \<and>
         (\<forall>i<length ?ss. \<forall>j<11. \<forall>oid.
            elementId (?rs ! (11 * i + j)) = Some oid \<longrightarrow> sublist (toString (i + 1)) oid) \<and>
         (\<forall>p<length ?rs. \<forall>x\<in>set (refers (?rs ! p)). \<exists>k<p. creates (?rs ! k) = Some x) \<and>
         (\<forall>k<length ?rs. \<forall>k'<length ?rs. \<forall>x.
            creates (?rs ! k) = Some x \<and> creates (?rs ! k') = Some x \<longrightarrow> k = k')"
    using layout_projection [of ?rs ?ss] by blast
  have e: "elementId (?rs ! 19) = Some (js ''desc_slide_2'')"
    by code_simp
  have r: "js ''desc_slide_2'' \<in> set (refers (?rs ! 20))"
    by code_simp
  have L: "length ?rs = 22" using T by simp
  from T have ids: "\<forall>i<length ?ss. \<forall>j<11. \<forall>oid.
      elementId (?rs ! (11 * i + j)) = Some oid \<longrightarrow> sublist (toString (i + 1)) oid"
    by blast
  have "elementId (?rs ! (11 * 1 + 8)) = Some (js ''desc_slide_2'') \<longrightarrow>
      sublist (toString (1 + 1)) (js ''desc_slide_2'')"
    using ids [rule_format, of 1 8 "js ''desc_slide_2''"] by simp
  with e have s: "sublist (toString 2) (js ''desc_slide_2'')" by (simp add: numeral_2_eq_2)
  from T have ord: "\<forall>p<length ?rs. \<forall>x\<in>set (refers (?rs ! p)). \<exists>k<p. creates (?rs ! k) = Some x"
    by blast
  have "\<exists>k<20. creates (?rs ! k) = Some (js ''desc_slide_2'')"
    using ord [rule_format, of 20 "js ''desc_slide_2''"] L r by simp
  with T L s show ?thesis by simp
qed

section \<open>The two layouts compared\<close>

lemma slideRequests_create_slides_nth:
  assumes "i < length ss" "j < 11"
  shows "slideRequests_create_slides ss ! (11 * i + j) = callback_create_slides (ss ! i) i ! j"
proof -
  have "\<forall>x\<in>set (enumerate 0 ss).
          length ((\<lambda>(index, slide). callback_create_slides slide index) x) = 11"
    by (auto simp: length_callback_create_slides)
  from concat_blocks_nth [OF this, of i j] assms show ?thesis
    by (simp add: slideRequests_create_slides_concat nth_enumerate_eq)
qed

lemma slideRequests_create_slides_show_nth:
  assumes "i < length ss" "j < 11"
  shows "slideRequests_create_slides_show ss ! (11 * i + j) =
           callback_create_slides_show (ss ! i) i ! j"
proof -
  have "\<forall>x\<in>set (enumerate 0 ss).
          length ((\<lambda>(index, slide). callback_create_slides_show slide index) x) = 11"
    by (auto simp: length_callback_create_slides_show)
  from concat_blocks_nth [OF this, of i j] assms show ?thesis
    by (simp add: slideRequests_create_slides_show_concat nth_enumerate_eq)
qed

lemma length_slideRequests_create_slides:
  "length (slideRequests_create_slides ss) = 11 * length ss"
proof -
  have "\<forall>x\<in>set (enumerate 0 ss).
          length ((\<lambda>(index, slide). callback_create_slides slide index) x) = 11"
    by (auto simp: length_callback_create_slides)
  from concat_blocks_length [OF this] show ?thesis
    by (simp add: slideRequests_create_slides_concat)
qed

lemma length_slideRequests_create_slides_show:
  "length (slideRequests_create_slides_show ss) = 11 * length ss"
proof -
  have "\<forall>x\<in>set (enumerate 0 ss).
          length ((\<lambda>(index, slide). callback_create_slides_show slide index) x) = 11"
    by (auto simp: length_callback_create_slides_show)
  from concat_blocks_length [OF this] show ?thesis
    by (simp add: slideRequests_create_slides_show_concat)
qed

lemma callbacks_take: "take 8 (callback_create_slides_show s i) = take 8 (callback_create_slides s i)"
  by (simp add: callback_create_slides_def callback_create_slides_show_def Let_def)

lemma callbacks_drop: "drop 9 (callback_create_slides_show s i) = drop 9 (callback_create_slides s i)"
  by (simp add: callback_create_slides_def callback_create_slides_show_def Let_def)

lemma callbacks_agree:
  assumes "j < 11" "j \<noteq> 8"
  shows "callback_create_slides_show s i ! j = callback_create_slides s i ! j"
proof (cases "j < 8")
  case True
  then have "callback_create_slides_show s i ! j = take 8 (callback_create_slides_show s i) ! j"
    and "callback_create_slides s i ! j = take 8 (callback_create_slides s i) ! j"
    by simp_all
  then show ?thesis by (simp only: callbacks_take)
next
  case False
  define k where "k = j - 9"
  have k: "j = 9 + k" "k < 2" using assms False unfolding k_def by arith+
  have "callback_create_slides_show s i ! j = drop 9 (callback_create_slides_show s i) ! k"
    and "callback_create_slides s i ! j = drop 9 (callback_create_slides s i) ! k"
    using k by (simp_all add: length_callback_create_slides length_callback_create_slides_show)
  then show ?thesis by (simp only: callbacks_drop)
qed

lemma callback_create_slides_desc:
  "callback_create_slides s i ! 8 =
     CreateShape (js ''desc_'' @ js ''slide_'' @ toString (i + 1)) (js ''TEXT_BOX'')
       \<lparr>pageObjectId = js ''slide_'' @ toString (i + 1),
        size' = \<lparr>height = \<lparr>magnitude = 80, unit = js ''PT''\<rparr>,
                 width = \<lparr>magnitude = 600, unit = js ''PT''\<rparr>\<rparr>,
        transform = \<lparr>scaleX = 1, scaleY = 1, translateX = 60, translateY = 70,
                     transform_unit = js ''PT''\<rparr>\<rparr>"
  by (simp add: callback_create_slides_def Let_def)

lemma callback_create_slides_show_desc:
  "callback_create_slides_show s i ! 8 =
     CreateShape (js ''desc_'' @ js ''slide_'' @ toString (i + 1)) (js ''TEXT_BOX'')
       \<lparr>pageObjectId = js ''slide_'' @ toString (i + 1),
        size' = \<lparr>height = \<lparr>magnitude = 80, unit = js ''PT''\<rparr>,
                 width = \<lparr>magnitude = 600, unit = js ''PT''\<rparr>\<rparr>,
        transform = \<lparr>scaleX = 1, scaleY = 1, translateX = 60, translateY = 100,
                     transform_unit = js ''PT''\<rparr>\<rparr>"
  by (simp add: callback_create_slides_show_def Let_def)

text \<open>
  C9. For one list of slide records, the request list of POST /create-slides-show and
  that of POST /create-slides have the same length and hold the same request at every
  position, except at the ninth of the eleven requests of each slide, which creates the
  description text box: there the two requests are the same shape with the same
  properties but for the vertical offset, 70 in /create-slides and 100 in
  /create-slides-show.
\<close>

theorem layouts_differ_in_description_offset:
  "length (slideRequests_create_slides_show slidesData) =
     length (slideRequests_create_slides slidesData) \<and>
   (\<forall>p<length (slideRequests_create_slides slidesData). p mod 11 \<noteq> 8 \<longrightarrow>
      slideRequests_create_slides_show slidesData ! p = slideRequests_create_slides slidesData ! p) \<and>
   (\<forall>i<length slidesData. \<exists>oid ty ep.
      slideRequests_create_slides slidesData ! (11 * i + 8) = CreateShape oid ty ep \<and>
      translateY (transform ep) = 70 \<and>
      slideRequests_create_slides_show slidesData ! (11 * i + 8) =
        CreateShape oid ty (ep\<lparr>transform := (transform ep)\<lparr>translateY := 100\<rparr>\<rparr>))"
proof (intro conjI allI impI)
  show "length (slideRequests_create_slides_show slidesData) =
     length (slideRequests_create_slides slidesData)"
    by (simp add: length_slideRequests_create_slides length_slideRequests_create_slides_show)
next
  fix p
  assume p: "p < length (slideRequests_create_slides slidesData)" and m: "p mod 11 \<noteq> 8"
  define i where "i = p div 11"
  define j where "j = p mod 11"
  have pij: "p = 11 * i + j" and j: "j < 11" by (simp_all add: i_def j_def)
  have i: "i < length slidesData"
    using p pij by (simp add: length_slideRequests_create_slides)
  have jne: "j \<noteq> 8" using m by (simp add: j_def)
  show "slideRequests_create_slides_show slidesData ! p = slideRequests_create_slides slidesData ! p"
    unfolding pij
    by (simp only: slideRequests_create_slides_nth [OF i j]
        slideRequests_create_slides_show_nth [OF i j] callbacks_agree [OF j jne])
next
  fix i
  assume i: "i < length slidesData"
  have j: "(8::nat) < 11" by simp
  show "\<exists>oid ty ep.
      slideRequests_create_slides slidesData ! (11 * i + 8) = CreateShape oid ty ep \<and>
      translateY (transform ep) = 70 \<and>
      slideRequests_create_slides_show slidesData ! (11 * i + 8) =
        CreateShape oid ty (ep\<lparr>transform := (transform ep)\<lparr>translateY := 100\<rparr>\<rparr>)"
    using slideRequests_create_slides_nth [OF i j] slideRequests_create_slides_show_nth [OF i j]
    by (simp add: callback_create_slides_desc callback_create_slides_show_desc)
qed

text \<open>For two slides: position 12 agrees, position 19 is the second description box.\<close>

theorem layouts_differ_in_description_offset_witness:
  "slideRequests_create_slides_show
      [\<lparr>title = js ''A'', description = js ''x''\<rparr>, \<lparr>title = js ''B'', description = js ''y''\<rparr>] ! 12 =
   slideRequests_create_slides
      [\<lparr>title = js ''A'', description = js ''x''\<rparr>, \<lparr>title = js ''B'', description = js ''y''\<rparr>] ! 12 \<and>
   (\<exists>oid ty ep.
      slideRequests_create_slides
        [\<lparr>title = js ''A'', description = js ''x''\<rparr>, \<lparr>title = js ''B'', description = js ''y''\<rparr>] ! 19 =
        CreateShape oid ty ep \<and>
      translateY (transform ep) = 70 \<and>
      slideRequests_create_slides_show
        [\<lparr>title = js ''A'', description = js ''x''\<rparr>, \<lparr>title = js ''B'', description = js ''y''\<rparr>] ! 19 =
        CreateShape oid ty (ep\<lparr>transform := (transform ep)\<lparr>translateY := 100\<rparr>\<rparr>))"
proof -
  let ?ss = "[\<lparr>title = js ''A'', description = js ''x''\<rparr>, \<lparr>title = js ''B'', description = js ''y''\<rparr>]"
  note T = layouts_differ_in_description_offset [of ?ss]
  have L: "length (slideRequests_create_slides ?ss) = 22"
    by (simp add: length_slideRequests_create_slides)
  from T have a: "\<forall>p<length (slideRequests_create_slides ?ss). p mod 11 \<noteq> 8 \<longrightarrow>
      slideRequests_create_slides_show ?ss ! p = slideRequests_create_slides ?ss ! p"
    by blast
  have one: "slideRequests_create_slides_show ?ss ! 12 = slideRequests_create_slides ?ss ! 12"
    using a [rule_format, of 12] L by simp
  from T have b: "\<forall>i<length ?ss. \<exists>oid ty ep.
      slideRequests_create_slides ?ss ! (11 * i + 8) = CreateShape oid ty ep \<and>
      translateY (transform ep) = 70 \<and>
      slideRequests_create_slides_show ?ss ! (11 * i + 8) =
        CreateShape oid ty (ep\<lparr>transform := (transform ep)\<lparr>translateY := 100\<rparr>\<rparr>)"
    by blast
  have two: "\<exists>oid ty ep.
      slideRequests_create_slides ?ss ! 19 = CreateShape oid ty ep \<and>
      translateY (transform ep) = 70 \<and>
      slideRequests_create_slides_show ?ss ! 19 =
        CreateShape oid ty (ep\<lparr>transform := (transform ep)\<lparr>translateY := 100\<rparr>\<rparr>)"
    using b [rule_format, of 1] by simp
  from one two show ?thesis by blast
qed

section \<open>Properties of the title-delimited segmenter\<close>

lemma update_last: "xs \<noteq> [] \<Longrightarrow> xs[length xs - Suc 0 := y] = butlast xs @ [y]"
  by (induction xs rule: rev_induct) simp_all

lemma nth_last: "xs \<noteq> [] \<Longrightarrow> xs ! (length xs - Suc 0) = last xs"
  by (simp add: last_conv_nth)

lemma trim_Nil [simp]: "trim [] = []"
  by (simp add: trim_def)

text \<open>Closing the open slide, as the loop does at a title and the trailing statement at the end.\<close>

lemma closed_slides:
  assumes "seg_inv st"
  shows "(case lastSlide st of
            None \<Rightarrow> slides st
          | Some i \<Rightarrow> (slides st)[i := (slides st ! i)
                         \<lparr>description := trim (join (js ''\<newline>\<newline>'') (buffer st))\<rparr>])
         = butlast (slides st) @ close (open_slide st) (buffer st)"
  using assms
  by (auto simp: seg_inv_def open_slide_def update_last nth_last split: option.splits)

lemma seg_flush_slides:
  assumes "seg_inv st"
  shows "slides (seg_flush st) = butlast (slides st) @ close (open_slide st) (buffer st)"
proof (cases "lastSlide st")
  case None
  with assms show ?thesis by (simp add: seg_flush_def seg_inv_def open_slide_def)
next
  case (Some i)
  with assms have ne: "slides st \<noteq> []" and i: "i = length (slides st) - 1"
    and d: "description (last (slides st)) = []"
    by (simp_all add: seg_inv_def)
  show ?thesis
  proof (cases "buffer st = []")
    case True
    have "(last (slides st))\<lparr>description := []\<rparr> = last (slides st)" using d by simp
    with True Some ne show ?thesis by (simp add: seg_flush_def open_slide_def)
  next
    case False
    with Some ne i show ?thesis
      by (simp add: seg_flush_def open_slide_def update_last nth_last)
  qed
qed

lemma seg_step_boundary:
  assumes "seg_inv st" "titleBoundary el"
  shows "seg_inv (seg_step st el)"
    and "butlast (slides (seg_step st el)) = butlast (slides st) @ close (open_slide st) (buffer st)"
    and "open_slide (seg_step st el) = Some \<lparr>title = trim (textContent el), description = []\<rparr>"
    and "buffer (seg_step st el) = []"
proof -
  let ?closed = "butlast (slides st) @ close (open_slide st) (buffer st)"
  have step: "seg_step st el =
      \<lparr>slides = ?closed @ [\<lparr>title = trim (textContent el), description = []\<rparr>],
       lastSlide = Some (length ?closed), buffer = []\<rparr>"
    using assms(2) closed_slides [OF assms(1)]
    by (simp add: seg_step_def titleBoundary_def Let_def)
  show "seg_inv (seg_step st el)" unfolding step by (simp add: seg_inv_def)
  show "butlast (slides (seg_step st el)) = ?closed"
    unfolding step by (simp flip: append_assoc)
  show "open_slide (seg_step st el) = Some \<lparr>title = trim (textContent el), description = []\<rparr>"
    unfolding step by (simp add: open_slide_def)
  show "buffer (seg_step st el) = []" unfolding step by simp
qed

lemma seg_step_content:
  assumes "seg_inv st" "\<not> titleBoundary el"
  shows "seg_inv (seg_step st el)"
    and "slides (seg_step st el) = slides st"
    and "open_slide (seg_step st el) = open_slide st"
    and "buffer (seg_step st el) = buffer st @ buffered [el]"
proof -
  let ?text = "trim (collapse (textContent el))"
  have c: "\<not> (tagName el = js ''P'' \<and> isStrongOnlyTitle el)"
    using assms(2) by (simp add: titleBoundary_def)
  have step: "seg_step st el = (if ?text \<noteq> [] then st\<lparr>buffer := buffer st @ [?text]\<rparr> else st)"
    by (simp only: seg_step_def if_not_P [OF c] Let_def)
  show "seg_inv (seg_step st el)"
    unfolding step using assms(1) by (auto simp: seg_inv_def split: option.splits)
  show "slides (seg_step st el) = slides st" unfolding step by simp
  show "open_slide (seg_step st el) = open_slide st" unfolding step by (simp add: open_slide_def)
  show "buffer (seg_step st el) = buffer st @ buffered [el]"
    unfolding step by (simp add: buffered_def)
qed

lemma seg_fold_groups:
  "seg_inv st \<Longrightarrow>
     slides (seg_flush (foldl seg_step st els)) =
       butlast (slides st) @ seg_groups (open_slide st) (buffer st) els"
proof (induction els arbitrary: st)
  case Nil
  then show ?case by (simp add: seg_flush_slides)
next
  case (Cons el els)
  show ?case
  proof (cases "titleBoundary el")
    case True
    from seg_step_boundary [OF Cons.prems True] Cons.IH [of "seg_step st el"] True
    show ?thesis by simp
  next
    case False
    from seg_step_content [OF Cons.prems False] Cons.IH [of "seg_step st el"] False
    show ?thesis by simp
  qed
qed

lemma segment_groups: "segment els = filter (\<lambda>s. title s \<noteq> []) (seg_groups None [] els)"
proof -
  have "seg_inv seg_init" by (simp add: seg_inv_def seg_init_def)
  from seg_fold_groups [OF this, of els] show ?thesis
    by (simp add: segment_def seg_init_def open_slide_def)
qed

lemma seg_groups_titles:
  "map title (seg_groups cur buf els) =
     map title (close cur buf) @ map (\<lambda>el. trim (textContent el)) (filter titleBoundary els)"
proof (induction els arbitrary: cur buf)
  case Nil
  then show ?case by simp
next
  case (Cons el els)
  then show ?case by (cases cur) simp_all
qed

lemma segment_titles:
  "map title (segment els) =
     filter (\<lambda>t. t \<noteq> []) (map (\<lambda>el. trim (textContent el)) (filter titleBoundary els))"
proof -
  have "map title (segment els) = filter (\<lambda>t. t \<noteq> []) (map title (seg_groups None [] els))"
    by (simp add: segment_groups filter_map comp_def)
  then show ?thesis by (simp add: seg_groups_titles)
qed

lemma seg_groups_at_title:
  "titleBoundary t \<Longrightarrow>
     seg_groups cur buf (pre @ t # later) =
       seg_groups cur buf pre @
       seg_groups (Some \<lparr>title = trim (textContent t), description = []\<rparr>) [] later"
  by (induction pre arbitrary: cur buf) simp_all

lemma buffered_append: "buffered (xs @ ys) = buffered xs @ buffered ys"
  by (simp add: buffered_def)

lemma seg_groups_content:
  "\<forall>el\<in>set content. \<not> titleBoundary el \<Longrightarrow>
     seg_groups cur buf (content @ later) = seg_groups cur (buf @ buffered content) later"
proof (induction content arbitrary: buf)
  case Nil
  then show ?case by (simp add: buffered_def)
next
  case (Cons el content)
  then show ?case using buffered_append [of "[el]" content] by simp
qed

lemma seg_groups_close:
  "rest = [] \<or> titleBoundary (hd rest) \<Longrightarrow>
     seg_groups cur buf rest = close cur buf @ seg_groups None [] rest"
  by (cases rest) auto

lemma seg_groups_segmentation:
  assumes "titleBoundary t" "\<forall>el\<in>set content. \<not> titleBoundary el"
    and "rest = [] \<or> titleBoundary (hd rest)"
  shows "seg_groups None [] (pre @ t # content @ rest) =
           seg_groups None [] pre @
           [\<lparr>title = trim (textContent t),
             description = trim (join (js ''\<newline>\<newline>'') (buffered content))\<rparr>] @
           seg_groups None [] rest"
proof -
  let ?new = "\<lparr>title = trim (textContent t), description = []\<rparr>"
  have "seg_groups None [] (pre @ t # content @ rest) =
          seg_groups None [] pre @ seg_groups (Some ?new) [] (content @ rest)"
    using seg_groups_at_title [OF assms(1)] by simp
  also have "seg_groups (Some ?new) [] (content @ rest) =
          seg_groups (Some ?new) (buffered content) rest"
    using seg_groups_content [OF assms(2), of "Some ?new" "[]" rest] by simp
  also have "\<dots> = close (Some ?new) (buffered content) @ seg_groups None [] rest"
    using seg_groups_close [OF assms(3)] .
  finally show ?thesis by simp
qed

lemma trim_tight_or_empty: "trim s = [] \<or> tight (trim s)"
proof (cases "trim s = []")
  case True
  then show ?thesis by simp
next
  case False
  let ?a = "dropWhile isWhiteSpace s"
  let ?b = "dropWhile isWhiteSpace (rev ?a)"
  have b: "?b \<noteq> []" using False by (simp add: trim_def)
  then have lastb: "\<not> isWhiteSpace (hd ?b)" by (simp add: hd_dropWhile)
  have a: "?a \<noteq> []" using b by (cases "?a = []") simp_all
  then have hda: "\<not> isWhiteSpace (hd ?a)" by (simp add: hd_dropWhile)
  have "last ?b = last (rev ?a)"
    using b by (metis dropWhile_eq_Nil_conv last_appendR takeWhile_dropWhile_id)
  then have "last ?b = hd ?a" using a by (simp add: last_rev)
  then have "\<not> isWhiteSpace (hd (rev ?b))" "\<not> isWhiteSpace (last (rev ?b))"
    using lastb hda b by (simp_all add: hd_rev last_rev)
  with b show ?thesis by (simp add: tight_def trim_def)
qed

lemma trim_tight: "tight s \<Longrightarrow> trim s = s"
proof -
  assume t: "tight s"
  then have "dropWhile isWhiteSpace s = s"
    by (cases s) (simp_all add: tight_def)
  moreover have "dropWhile isWhiteSpace (rev s) = rev s"
    using t by (cases "rev s") (auto simp: tight_def hd_rev)
  ultimately show ?thesis by (simp add: trim_def)
qed

lemma join_tight:
  "xs \<noteq> [] \<Longrightarrow> \<forall>x\<in>set xs. tight x \<Longrightarrow> tight (join sep xs)"
proof (induction sep xs rule: join.induct)
  case (1 sep)
  then show ?case by simp
next
  case (2 sep x)
  then show ?case by simp
next
  case (3 sep x y ys)
  then have "tight x" and "tight (join sep (y # ys))" by simp_all
  then show ?case by (simp add: tight_def)
qed

lemma buffered_tight: "\<forall>x\<in>set (buffered els). tight x"
  using trim_tight_or_empty by (auto simp: buffered_def)

lemma trim_join_buffered: "trim (join sep (buffered els)) = join sep (buffered els)"
proof (cases "buffered els = []")
  case True
  then show ?thesis by simp
next
  case False
  then show ?thesis using join_tight [OF False buffered_tight] trim_tight by blast
qed

lemma segment_segmentation:
  assumes "titleBoundary t" "\<forall>el\<in>set content. \<not> titleBoundary el"
    and "rest = [] \<or> titleBoundary (hd rest)"
  shows "segment (pre @ t # content @ rest) =
           segment pre @
           filter (\<lambda>s. title s \<noteq> [])
             [\<lparr>title = trim (textContent t),
               description = join (js ''\<newline>\<newline>'') (buffered content)\<rparr>] @
           segment rest"
  using seg_groups_segmentation [OF assms, of pre]
  by (simp add: segment_groups trim_join_buffered)

lemmas eval_defs = html_document_def plain_paragraph_def bold_paragraph_def heading2_def
  extractSlidesFromHtml_def body_def documentElement_def js_def children_def
  segment_def seg_init_def seg_step_def seg_flush_def isStrongOnlyTitle_def
  querySelector_strong_def trim_def isWhiteSpace_def extractSlidesFromHtml_SlideShow_def
  titleBoundary_def

text \<open>
  C2. When the element children of the document body are, in order, a bold-only
  paragraph "Title A", a paragraph "text1", a bold-only paragraph "Title B" and a
  paragraph "text2", \<^verbatim>\<open>extractSlidesFromHtml\<close> returns exactly the two records
  (Title A, text1) and (Title B, text2).
\<close>

theorem title_delimited_example:
  assumes "body d = Some b"
    and "children b = [bold_paragraph (js ''Title A''), plain_paragraph (js ''text1''),
                       bold_paragraph (js ''Title B''), plain_paragraph (js ''text2'')]"
  shows "extractSlidesFromHtml d =
           Inr [\<lparr>title = js ''Title A'', description = js ''text1''\<rparr>,
                \<lparr>title = js ''Title B'', description = js ''text2''\<rparr>]"
proof -
  have "segment [bold_paragraph (js ''Title A''), plain_paragraph (js ''text1''),
                 bold_paragraph (js ''Title B''), plain_paragraph (js ''text2'')] =
          [\<lparr>title = js ''Title A'', description = js ''text1''\<rparr>,
           \<lparr>title = js ''Title B'', description = js ''text2''\<rparr>]"
    by (simp add: bold_paragraph_def plain_paragraph_def js_def segment_def seg_init_def seg_step_def
        seg_flush_def isStrongOnlyTitle_def querySelector_strong_def trim_def isWhiteSpace_def)
  with assms show ?thesis by (simp add: extractSlidesFromHtml_def)
qed

theorem title_delimited_example_witness:
  "extractSlidesFromHtml
     (html_document [bold_paragraph (js ''Title A''), plain_paragraph (js ''text1''),
                     bold_paragraph (js ''Title B''), plain_paragraph (js ''text2'')]) =
   Inr [\<lparr>title = js ''Title A'', description = js ''text1''\<rparr>,
        \<lparr>title = js ''Title B'', description = js ''text2''\<rparr>]"
proof -
  let ?els = "[bold_paragraph (js ''Title A''), plain_paragraph (js ''text1''),
               bold_paragraph (js ''Title B''), plain_paragraph (js ''text2'')]"
  have b: "body (html_document ?els) = Some (Element (js ''BODY'') ?els)"
    by (simp add: html_document_def body_def documentElement_def js_def)
  have c: "children (Element (js ''BODY'') ?els) = ?els"
    by (simp add: children_def bold_paragraph_def plain_paragraph_def)
  from title_delimited_example [OF b c] show ?thesis .
qed

text \<open>
  C3, as the code has it. Let the body's element children be \<open>pre\<close>, then a title
  boundary \<open>t\<close> with a non-empty title, then content elements none of which is a title
  boundary, then \<open>rest\<close>, which is empty or starts with the next title boundary. The
  slide opened at \<open>t\<close> is returned between the slides of \<open>pre\<close> and those of \<open>rest\<close>,
  and its description is the non-empty normalized texts of the content elements joined
  by two newline characters; nothing is trimmed off that join. For the two content
  paragraphs "a" and "b" the description is "a", two newlines, "b".
\<close>

theorem description_is_blank_line_join:
  assumes "body d = Some b"
    and "children b = pre @ t # content @ rest"
    and "titleBoundary t"
    and "trim (textContent t) \<noteq> []"
    and "\<forall>el\<in>set content. \<not> titleBoundary el"
    and "rest = [] \<or> titleBoundary (hd rest)"
  shows "extractSlidesFromHtml d =
           Inr (segment pre @
                [\<lparr>title = trim (textContent t),
                  description = join (js ''\<newline>\<newline>'') (buffered content)\<rparr>] @
                segment rest)"
  using assms(1,2,4) segment_segmentation [OF assms(3,5,6), of pre]
  by (simp add: extractSlidesFromHtml_def)

theorem description_is_blank_line_join_witness:
  "extractSlidesFromHtml
     (html_document [plain_paragraph (js ''intro''), bold_paragraph (js ''T''),
                     plain_paragraph (js ''a''), plain_paragraph (js ''  ''),
                     plain_paragraph (js ''b''), bold_paragraph (js ''U'')]) =
     Inr [\<lparr>title = js ''T'', description = js ''a\<newline>\<newline>b''\<rparr>,
          \<lparr>title = js ''U'', description = []\<rparr>]"
proof -
  let ?pre = "[plain_paragraph (js ''intro'')]"
  let ?t = "bold_paragraph (js ''T'')"
  let ?content = "[plain_paragraph (js ''a''), plain_paragraph (js ''  ''), plain_paragraph (js ''b'')]"
  let ?rest = "[bold_paragraph (js ''U'')]"
  let ?d = "html_document (?pre @ ?t # ?content @ ?rest)"
  have b: "body ?d = Some (Element (js ''BODY'') (?pre @ ?t # ?content @ ?rest))"
    by (simp add: html_document_def body_def documentElement_def js_def)
  have c: "children (Element (js ''BODY'') (?pre @ ?t # ?content @ ?rest)) =
             ?pre @ ?t # ?content @ ?rest"
    by (simp add: children_def bold_paragraph_def plain_paragraph_def)
  have t: "titleBoundary ?t" by (simp add: eval_defs)
  have n: "trim (textContent ?t) \<noteq> []" by (simp add: eval_defs)
  have nb: "\<forall>el\<in>set ?content. \<not> titleBoundary el" by (simp add: eval_defs)
  have r: "?rest = [] \<or> titleBoundary (hd ?rest)" by (simp add: eval_defs)
  have "extractSlidesFromHtml ?d =
           Inr (segment ?pre @
                [\<lparr>title = trim (textContent ?t),
                  description = join (js ''\<newline>\<newline>'') (buffered ?content)\<rparr>] @
                segment ?rest)"
    by (rule description_is_blank_line_join [OF b c t n nb r])
  moreover have "segment ?pre = []" by (simp add: eval_defs)
  moreover have "segment ?rest = [\<lparr>title = js ''U'', description = []\<rparr>]" by (simp add: eval_defs)
  moreover have "trim (textContent ?t) = js ''T''" by (simp add: eval_defs)
  moreover have "join (js ''\<newline>\<newline>'') (buffered ?content) = js ''a\<newline>\<newline>b''"
    by (simp add: eval_defs buffered_def)
  ultimately show ?thesis by simp
qed

text \<open>
  A title followed by the paragraphs "a" and "b": the description holds two newline
  characters between them, not one.
\<close>

theorem description_single_newline_counterexample:
  "extractSlidesFromHtml
     (html_document [bold_paragraph (js ''T''), plain_paragraph (js ''a''),
                     plain_paragraph (js ''b'')]) =
     Inr [\<lparr>title = js ''T'', description = js ''a\<newline>\<newline>b''\<rparr>] \<and>
   js ''a\<newline>\<newline>b'' \<noteq> js ''a\<newline>b''"
  by (simp add: eval_defs)

text \<open>
  C8, as the code has it. The titles of the returned slides are, in order, the text
  contents of the title boundaries among the body's element children, each trimmed at
  both ends and no more, with the empty ones left out. White space inside a title is
  not collapsed: collapsing is applied only where a paragraph is classified and where
  content is buffered.
\<close>

theorem title_is_trimmed_text:
  assumes "body d = Some b"
  shows "\<exists>ss. extractSlidesFromHtml d = Inr ss \<and>
           map title ss =
             filter (\<lambda>t. t \<noteq> [])
               (map (\<lambda>el. trim (textContent el)) (filter titleBoundary (children b)))"
  using assms by (simp add: extractSlidesFromHtml_def segment_titles)

theorem title_is_trimmed_text_witness:
  "\<exists>ss. extractSlidesFromHtml
          (html_document [bold_paragraph (js '' Title  A ''), plain_paragraph (js ''x'')]) = Inr ss \<and>
        map title ss = [js ''Title  A'']"
proof -
  let ?els = "[bold_paragraph (js '' Title  A ''), plain_paragraph (js ''x'')]"
  have b: "body (html_document ?els) = Some (Element (js ''BODY'') ?els)"
    by (simp add: html_document_def body_def documentElement_def js_def)
  have "filter (\<lambda>t. t \<noteq> [])
          (map (\<lambda>el. trim (textContent el))
             (filter titleBoundary (children (Element (js ''BODY'') ?els)))) = [js ''Title  A'']"
    by (simp add: eval_defs)
  with title_is_trimmed_text [OF b] show ?thesis by simp
qed

text \<open>
  A bold-only paragraph with two spaces between its words is a title boundary; its slide
  keeps both spaces, while the normalized text has one.
\<close>

theorem title_not_collapsed_counterexample:
  "titleBoundary (bold_paragraph (js ''Title  A'')) \<and>
   extractSlidesFromHtml (html_document [bold_paragraph (js ''Title  A'')]) =
     Inr [\<lparr>title = js ''Title  A'', description = []\<rparr>] \<and>
   trim (collapse (textContent (bold_paragraph (js ''Title  A'')))) = js ''Title A'' \<and>
   js ''Title  A'' \<noteq> js ''Title A''"
  by (simp add: eval_defs)

section \<open>Properties of the heading-delimited segmenter\<close>

lemma collect_takeWhile:
  "collect sibs acc =
     acc @ concat (map (\<lambda>s. textContent s @ js ''\<newline>'')
                    (takeWhile (\<lambda>s. tagName s \<noteq> js ''H2'') sibs))"
  by (induction sibs arbitrary: acc) simp_all

text \<open>
  C4. For the document whose body holds, in order, an h2 "A", a paragraph "x", an h2
  "B", a paragraph "y" and a paragraph "z", \<^verbatim>\<open>extractSlidesFromHtml_SlideShow\<close> returns
  exactly (A, x) and (B, y newline z). In every document, the description of a heading
  is the text content of each following sibling element up to the next h2 or the end
  of the siblings, each followed by a line break, and only the assembled string is
  trimmed.
\<close>

theorem heading_delimited_example:
  "extractSlidesFromHtml_SlideShow
     (html_document [heading2 (js ''A''), plain_paragraph (js ''x''), heading2 (js ''B''),
                     plain_paragraph (js ''y''), plain_paragraph (js ''z'')]) =
     [\<lparr>title = js ''A'', description = js ''x''\<rparr>,
      \<lparr>title = js ''B'', description = js ''y\<newline>z''\<rparr>] \<and>
   extractSlidesFromHtml_SlideShow d =
     map (\<lambda>(h2, following).
            \<lparr>title = trim (textContent h2),
             description =
               trim (concat (map (\<lambda>s. textContent s @ js ''\<newline>'')
                              (takeWhile (\<lambda>s. tagName s \<noteq> js ''H2'')
                                 (filter isElement following))))\<rparr>)
         (querySelectorAll_h2 (docNodes d))"
proof
  show "extractSlidesFromHtml_SlideShow
     (html_document [heading2 (js ''A''), plain_paragraph (js ''x''), heading2 (js ''B''),
                     plain_paragraph (js ''y''), plain_paragraph (js ''z'')]) =
     [\<lparr>title = js ''A'', description = js ''x''\<rparr>,
      \<lparr>title = js ''B'', description = js ''y\<newline>z''\<rparr>]"
    by (simp add: extractSlidesFromHtml_SlideShow_def html_document_def heading2_def
        plain_paragraph_def js_def trim_def isWhiteSpace_def)
next
  show "extractSlidesFromHtml_SlideShow d =
     map (\<lambda>(h2, following).
            \<lparr>title = trim (textContent h2),
             description =
               trim (concat (map (\<lambda>s. textContent s @ js ''\<newline>'')
                              (takeWhile (\<lambda>s. tagName s \<noteq> js ''H2'')
                                 (filter isElement following))))\<rparr>)
         (querySelectorAll_h2 (docNodes d))"
    by (simp add: extractSlidesFromHtml_SlideShow_def collect_takeWhile)
qed

lemma descendants_elements: "descendants (Element t cs) = all_elements cs"
  by (simp add: all_elements_def)

lemma querySelectorAll_h2_elements:
  "map fst (querySelectorAll_h2 ns) = filter (\<lambda>e. tagName e = js ''H2'') (all_elements ns)"
proof (induction ns rule: querySelectorAll_h2.induct)
  case 1
  then show ?case by (simp add: all_elements_def)
next
  case (2 s rest)
  then show ?case by (simp add: all_elements_def)
next
  case (3 s rest)
  then show ?case by (simp add: all_elements_def)
next
  case (4 t cs rest)
  have "all_elements (Element t cs # rest) = Element t cs # all_elements cs @ all_elements rest"
    by (simp add: all_elements_def)
  with 4 show ?case by simp
qed

lemma slideshow_titles:
  "map title (extractSlidesFromHtml_SlideShow d) =
     map (\<lambda>h. trim (textContent h)) (h2_elements d)"
proof -
  have "map title (extractSlidesFromHtml_SlideShow d) =
          map (\<lambda>h. trim (textContent h)) (map fst (querySelectorAll_h2 (docNodes d)))"
    by (simp add: extractSlidesFromHtml_SlideShow_def case_prod_unfold comp_def)
  then show ?thesis by (simp add: querySelectorAll_h2_elements h2_elements_def)
qed

lemma segment_nonempty_titles: "\<forall>s\<in>set (segment els). title s \<noteq> []"
  by (simp add: segment_def)

text \<open>
  C10. \<^verbatim>\<open>extractSlidesFromHtml_SlideShow\<close> returns one record for each h2 element of
  the document, in document order, the title being the trimmed text of the heading: so
  the result is as long as the list of h2 elements, and a heading of white space alone
  still gives a record, with the empty title. The title-delimited segmenter instead
  returns no record with an empty title: a bold-only paragraph of white space alone opens
  a slide that the final filter removes.
\<close>

theorem heading_delimited_keeps_every_h2:
  "length (extractSlidesFromHtml_SlideShow d) = length (h2_elements d) \<and>
   map title (extractSlidesFromHtml_SlideShow d) =
     map (\<lambda>h. trim (textContent h)) (h2_elements d) \<and>
   extractSlidesFromHtml_SlideShow (html_document [heading2 (js '' ''), plain_paragraph (js ''x'')]) =
     [\<lparr>title = [], description = js ''x''\<rparr>] \<and>
   (\<forall>ss. extractSlidesFromHtml d = Inr ss \<longrightarrow> (\<forall>s\<in>set ss. title s \<noteq> [])) \<and>
   extractSlidesFromHtml (html_document [bold_paragraph (js '' ''), plain_paragraph (js ''x'')]) = Inr []"
proof (intro conjI)
  show "map title (extractSlidesFromHtml_SlideShow d) =
     map (\<lambda>h. trim (textContent h)) (h2_elements d)"
    by (rule slideshow_titles)
  then show "length (extractSlidesFromHtml_SlideShow d) = length (h2_elements d)"
    by (metis length_map)
  show "extractSlidesFromHtml_SlideShow (html_document [heading2 (js '' ''), plain_paragraph (js ''x'')]) =
     [\<lparr>title = [], description = js ''x''\<rparr>]"
    by (simp add: extractSlidesFromHtml_SlideShow_def html_document_def heading2_def
        plain_paragraph_def js_def trim_def isWhiteSpace_def)
  show "\<forall>ss. extractSlidesFromHtml d = Inr ss \<longrightarrow> (\<forall>s\<in>set ss. title s \<noteq> [])"
    using segment_nonempty_titles
    by (auto simp: extractSlidesFromHtml_def split: option.splits)
  show "extractSlidesFromHtml (html_document [bold_paragraph (js '' ''), plain_paragraph (js ''x'')]) = Inr []"
    by (simp add: eval_defs)
qed

theorem heading_delimited_keeps_every_h2_witness:
  "extractSlidesFromHtml (html_document [bold_paragraph (js '' ''), bold_paragraph (js ''T'')]) =
     Inr [\<lparr>title = js ''T'', description = []\<rparr>] \<and>
   title \<lparr>title = js ''T'', description = []\<rparr> \<noteq> [] \<and>
   length (extractSlidesFromHtml_SlideShow
             (html_document [heading2 (js '' ''), heading2 (js ''T'')])) = 2"
proof -
  let ?d = "html_document [bold_paragraph (js '' ''), bold_paragraph (js ''T'')]"
  let ?e = "html_document [heading2 (js '' ''), heading2 (js ''T'')]"
  have s: "extractSlidesFromHtml ?d = Inr [\<lparr>title = js ''T'', description = []\<rparr>]"
    by (simp add: eval_defs)
  have "\<forall>ss. extractSlidesFromHtml ?d = Inr ss \<longrightarrow> (\<forall>s\<in>set ss. title s \<noteq> [])"
    using heading_delimited_keeps_every_h2 [of ?d] by blast
  with s have t: "title \<lparr>title = js ''T'', description = []\<rparr> \<noteq> []" by fastforce
  have "h2_elements ?e = [heading2 (js '' ''), heading2 (js ''T'')]"
    by (simp add: h2_elements_def all_elements_def html_document_def heading2_def js_def)
  moreover have "length (extractSlidesFromHtml_SlideShow ?e) = length (h2_elements ?e)"
    using heading_delimited_keeps_every_h2 [of ?e] by blast
  ultimately have "length (extractSlidesFromHtml_SlideShow ?e) = 2" by simp
  with s t show ?thesis by blast
qed

section \<open>Properties of the handlers\<close>

lemma unit_in_range:
  fixes u :: jschar
  shows "(0x0590 \<le> u \<and> u \<le> 0x05FF \<or> 0x0600 \<le> u \<and> u \<le> 0x06FF) \<longleftrightarrow>
         (hebrew (unat u) \<or> arabic (unat u))"
  by (simp add: hebrew_def arabic_def word_le_nat_alt)

lemma isArabic_codePoints:
  "isArabic html \<longleftrightarrow> (\<exists>cp\<in>set (codePoints html). hebrew cp \<or> arabic cp)"
proof (induction html rule: codePoints.induct)
  case 1
  then show ?case by (simp add: isArabic_def)
next
  case (2 u)
  then show ?case using unit_in_range [of u] by (simp add: isArabic_def)
next
  case (3 u v rest)
  let ?pair = "0xD800 \<le> u \<and> u \<le> 0xDBFF \<and> 0xDC00 \<le> v \<and> v \<le> 0xDFFF"
  show ?case
  proof (cases ?pair)
    case True
    then have nu: "\<not> (hebrew (unat u) \<or> arabic (unat u))"
      and nv: "\<not> (hebrew (unat v) \<or> arabic (unat v))"
      by (simp_all add: hebrew_def arabic_def word_le_nat_alt)
    have big: "\<not> (hebrew (0x10000 + (unat u - 0xD800) * 0x400 + (unat v - 0xDC00)) \<or>
                  arabic (0x10000 + (unat u - 0xD800) * 0x400 + (unat v - 0xDC00)))"
      by (simp add: hebrew_def arabic_def)
    have cps: "codePoints (u # v # rest) =
        (0x10000 + (unat u - 0xD800) * 0x400 + (unat v - 0xDC00)) # codePoints rest"
      using True by simp
    have "isArabic (u # v # rest) = isArabic rest"
      using nu nv unit_in_range [of u] unit_in_range [of v] by (auto simp: isArabic_def)
    also have "\<dots> = (\<exists>cp\<in>set (codePoints rest). hebrew cp \<or> arabic cp)"
      using "3.IH"(1) [OF True] .
    finally show ?thesis using big unfolding cps by simp
  next
    case False
    have cps: "codePoints (u # v # rest) = unat u # codePoints (v # rest)"
      using False by auto
    have "isArabic (u # v # rest) = ((hebrew (unat u) \<or> arabic (unat u)) \<or> isArabic (v # rest))"
      using unit_in_range [of u] by (simp add: isArabic_def)
    also have "isArabic (v # rest) = (\<exists>cp\<in>set (codePoints (v # rest)). hebrew cp \<or> arabic cp)"
      using "3.IH"(2) [OF False] .
    finally show ?thesis unfolding cps by simp
  qed
qed

lemma andThen_lift_Inr [simp]: "andThen (lift (Inr x)) f = f x"
  by (simp add: andThen_def lift_def split: prod.splits)

lemma andThen_lift_Inl [simp]: "andThen (lift (Inl e)) f = (Inl e, [])"
  by (simp add: andThen_def lift_def)

lemma andThen_call_Inr [simp]:
  "andThen (call c (Inr x)) f = (fst (f x), c # snd (f x))"
  by (simp add: andThen_def call_def split: prod.splits)

lemma andThen_call_Inl [simp]: "andThen (call c (Inl e)) f = (Inl e, [c])"
  by (simp add: andThen_def call_def)

lemma snd_handler [simp]: "snd (handler m) = snd m"
  by (simp add: handler_def split: prod.splits sum.splits)




text \<open>
  C6. In POST /upload-doc, when the required fields are present and the conversion, the
  temporary file, the upload and the probe read of the created document succeed, the
  handler sends one Docs batch update holding one paragraph-style request. Its
  direction is right-to-left if the decoded HTML contains a code point of the Hebrew
  or of the Arabic block, and left-to-right otherwise. Its range runs from index 1,
  the first index after the start of the document, to the end index of the last
  structural element that the probe read returned.
\<close>

theorem upload_doc_direction:
  assumes "truthy (field b ''html_base64'')"
    and "truthy (field b ''access_token'')"
    and "truthy (field b ''file_name'')"
    and "base64_decode env (field b ''html_base64'') = Inr html"
    and "htmlToDocx env html = Inr docx"
    and "writeFileSync env docx = Inr ()"
    and "drive_files_create env (field b ''access_token'') (field b ''file_name'') = Inr docId"
    and "unlinkSync env = Inr ()"
    and "docs_documents_get env (field b ''access_token'') docId = Inr content"
    and "content \<noteq> []"
  shows "snd (upload_doc env (Some b)) =
           [HtmlToDocx html, WriteFileSync docx,
            DriveFilesCreate (field b ''access_token'') (field b ''file_name''), UnlinkSync,
            DocsDocumentsGet (field b ''access_token'') docId,
            DocsDocumentsBatchUpdate (field b ''access_token'') docId
              [UpdateParagraphStyle \<lparr>startIndex = 1, endIndex = last content\<rparr>
                 (if \<exists>cp\<in>set (codePoints html). hebrew cp \<or> arabic cp
                  then RIGHT_TO_LEFT else LEFT_TO_RIGHT)
                 (js ''direction'')]]"
proof -
  have dir: "(if isArabic html then RIGHT_TO_LEFT else LEFT_TO_RIGHT) =
             (if \<exists>cp\<in>set (codePoints html). hebrew cp \<or> arabic cp
              then RIGHT_TO_LEFT else LEFT_TO_RIGHT)"
    by (simp add: isArabic_codePoints)
  show ?thesis
    using assms unfolding upload_doc_def destructure_def Let_def dir [symmetric]
    by (cases "docs_documents_batchUpdate env (field b ''access_token'') docId
          [UpdateParagraphStyle \<lparr>startIndex = 1, endIndex = last content\<rparr>
             (if isArabic html then RIGHT_TO_LEFT else LEFT_TO_RIGHT) (js ''direction'')]")
       (simp_all add: ret_def)
qed

theorem upload_doc_direction_witness:
  "snd (upload_doc (env_ok (js ''<p>'' @ [0x05D0] @ js ''</p>'') (html_document []))
          (Some sample_body)) =
     [HtmlToDocx (js ''<p>'' @ [0x05D0] @ js ''</p>''), WriteFileSync [],
      DriveFilesCreate (JStr (js ''token'')) (JStr (js ''deck'')), UnlinkSync,
      DocsDocumentsGet (JStr (js ''token'')) (js ''doc1''),
      DocsDocumentsBatchUpdate (JStr (js ''token'')) (js ''doc1'')
        [UpdateParagraphStyle \<lparr>startIndex = 1, endIndex = 42\<rparr> RIGHT_TO_LEFT (js ''direction'')]]"
proof -
  let ?html = "js ''<p>'' @ [0x05D0] @ js ''</p>''"
  let ?env = "env_ok ?html (html_document [])"
  have f: "truthy (field sample_body ''html_base64'')" "truthy (field sample_body ''access_token'')"
    "truthy (field sample_body ''file_name'')"
    by (simp_all add: sample_body_def field_def js_def)
  have tok: "field sample_body ''access_token'' = JStr (js ''token'')"
    and name: "field sample_body ''file_name'' = JStr (js ''deck'')"
    by (simp_all add: sample_body_def field_def)
  have cp: "\<exists>cp\<in>set (codePoints ?html). hebrew cp \<or> arabic cp"
    by (simp add: js_def hebrew_def arabic_def)
  have "snd (upload_doc ?env (Some sample_body)) =
           [HtmlToDocx ?html, WriteFileSync [],
            DriveFilesCreate (field sample_body ''access_token'') (field sample_body ''file_name''),
            UnlinkSync,
            DocsDocumentsGet (field sample_body ''access_token'') (js ''doc1''),
            DocsDocumentsBatchUpdate (field sample_body ''access_token'') (js ''doc1'')
              [UpdateParagraphStyle \<lparr>startIndex = 1, endIndex = last [1, 42]\<rparr>
                 (if \<exists>cp\<in>set (codePoints ?html). hebrew cp \<or> arabic cp
                  then RIGHT_TO_LEFT else LEFT_TO_RIGHT)
                 (js ''direction'')]]"
    by (rule upload_doc_direction [OF f]) (simp_all add: env_ok_def)
  then show ?thesis using cp by (simp add: tok name)
qed

lemma segment_empty:
  assumes "\<forall>el\<in>set els. titleBoundary el \<longrightarrow> trim (textContent el) = []"
  shows "segment els = []"
proof -
  have "filter (\<lambda>t. t \<noteq> []) (map (\<lambda>el. trim (textContent el)) (filter titleBoundary els)) = []"
    using assms by (auto simp: filter_empty_conv)
  then have "map title (segment els) = []" by (simp add: segment_titles)
  then show ?thesis by simp
qed

lemma slideshow_empty: "h2_elements d = [] \<Longrightarrow> extractSlidesFromHtml_SlideShow d = []"
  using slideshow_titles [of d] by simp

text \<open>
  C5, as the code has it. Let both required fields be present, and let the decoded
  HTML parse to the document \<open>d\<close>. If \<open>d\<close> has no h2 element, POST /create-slides-show
  replies 400 with the message of the "no valid slides" path, before any outside call.
  POST /create-slides segments by bold-only paragraphs, not by headings: it replies 400
  through that path when no element child of the body is a title boundary with a
  non-empty title.
\<close>

theorem no_slides_is_rejected:
  assumes "truthy (field b ''access_token'')"
    and "truthy (field b ''html_base64'')"
    and "base64_decode env (field b ''html_base64'') = Inr html"
    and "jsdom env html = Inr d"
  shows "(h2_elements d = [] \<longrightarrow>
            create_slides_show env (Some b) =
              (\<lparr>status = 400, reply = Error (js ''No valid slides found in HTML.'')\<rparr>, [])) \<and>
         (\<forall>bd. body d = Some bd \<and>
               (\<forall>el\<in>set (children bd). titleBoundary el \<longrightarrow> trim (textContent el) = []) \<longrightarrow>
            create_slides env (Some b) =
              (\<lparr>status = 400, reply = Error (js ''No valid slides found in HTML.'')\<rparr>, []))"
proof (intro conjI allI impI)
  assume "h2_elements d = []"
  then have "extractSlidesFromHtml_SlideShow d = []" by (rule slideshow_empty)
  with assms show "create_slides_show env (Some b) =
      (\<lparr>status = 400, reply = Error (js ''No valid slides found in HTML.'')\<rparr>, [])"
    by (simp add: create_slides_show_def destructure_def Let_def handler_def ret_def)
next
  fix bd
  assume "body d = Some bd \<and>
          (\<forall>el\<in>set (children bd). titleBoundary el \<longrightarrow> trim (textContent el) = [])"
  then have "extractSlidesFromHtml d = Inr []"
    by (simp add: extractSlidesFromHtml_def segment_empty)
  with assms show "create_slides env (Some b) =
      (\<lparr>status = 400, reply = Error (js ''No valid slides found in HTML.'')\<rparr>, [])"
    by (simp add: create_slides_def destructure_def Let_def handler_def ret_def)
qed

theorem no_slides_is_rejected_witness:
  "create_slides_show (env_ok (js ''html'') (html_document [plain_paragraph (js ''x'')]))
       (Some sample_body) =
     (\<lparr>status = 400, reply = Error (js ''No valid slides found in HTML.'')\<rparr>, []) \<and>
   create_slides (env_ok (js ''html'') (html_document [plain_paragraph (js ''x'')]))
       (Some sample_body) =
     (\<lparr>status = 400, reply = Error (js ''No valid slides found in HTML.'')\<rparr>, [])"
proof -
  let ?d = "html_document [plain_paragraph (js ''x'')]"
  let ?env = "env_ok (js ''html'') ?d"
  have f: "truthy (field sample_body ''access_token'')" "truthy (field sample_body ''html_base64'')"
    by (simp_all add: sample_body_def field_def js_def)
  have dec: "base64_decode ?env (field sample_body ''html_base64'') = Inr (js ''html'')"
    by (simp add: env_ok_def)
  have dom: "jsdom ?env (js ''html'') = Inr ?d" by (simp add: env_ok_def)
  have h: "h2_elements ?d = []"
    by (simp add: h2_elements_def all_elements_def html_document_def plain_paragraph_def js_def)
  have b: "body ?d = Some (Element (js ''BODY'') [plain_paragraph (js ''x'')]) \<and>
           (\<forall>el\<in>set (children (Element (js ''BODY'') [plain_paragraph (js ''x'')])).
              titleBoundary el \<longrightarrow> trim (textContent el) = [])"
    by (simp add: eval_defs)
  from no_slides_is_rejected [OF f dec dom] h b show ?thesis by blast
qed

text \<open>
  A document without any h2 element whose body starts with a bold-only paragraph: POST
  /create-slides finds a slide and replies with the link of the new presentation.
\<close>

theorem no_h2_create_slides_counterexample:
  "h2_elements (html_document [bold_paragraph (js ''T''), plain_paragraph (js ''x'')]) = [] \<and>
   truthy (field sample_body ''access_token'') \<and> truthy (field sample_body ''html_base64'') \<and>
   fst (create_slides
          (env_ok (js ''html'') (html_document [bold_paragraph (js ''T''), plain_paragraph (js ''x'')]))
          (Some sample_body)) =
     \<lparr>status = 200, reply = Url (js ''https://docs.google.com/presentation/d/pres1/edit'')\<rparr>"
proof -
  let ?d = "html_document [bold_paragraph (js ''T''), plain_paragraph (js ''x'')]"
  have h: "h2_elements ?d = []"
    by (simp add: h2_elements_def all_elements_def html_document_def bold_paragraph_def
        plain_paragraph_def js_def)
  have s: "extractSlidesFromHtml ?d = Inr [\<lparr>title = js ''T'', description = js ''x''\<rparr>]"
    by (simp add: eval_defs)
  have f: "truthy (field sample_body ''access_token'')" "truthy (field sample_body ''html_base64'')"
    by (simp_all add: sample_body_def field_def js_def)
  have t: "presentationTitle (field sample_body ''file_name'') = Inr (JStr (js ''deck''))"
    by (simp add: sample_body_def field_def presentationTitle_def js_def trim_def isWhiteSpace_def)
  have "fst (create_slides (env_ok (js ''html'') ?d) (Some sample_body)) =
     \<lparr>status = 200, reply = Url (js ''https://docs.google.com/presentation/d/'' @ js ''pres1''
                                  @ js ''/edit'')\<rparr>"
    using f s t
    by (simp add: create_slides_def destructure_def Let_def env_ok_def build_presentation_def
        handler_def ret_def split: prod.splits)
  moreover have "js ''https://docs.google.com/presentation/d/'' @ js ''pres1'' @ js ''/edit'' =
      js ''https://docs.google.com/presentation/d/pres1/edit''"
    by (simp add: js_def)
  ultimately show ?thesis using h f by simp
qed

end
